theory Spec2Isabelle
  imports Complex_Main "HOL-Library.AList" "HOL-Library.Sublist"
begin

chapter \<open>The retrieval-augmented chat pipeline: model\<close>

text \<open>
  A shallow embedding of the Python services: the text segmenter
  (\<^verbatim>\<open>FileHandler.split_text\<close>), the vector services (the in-memory one and the
  Chroma-backed one), the ingestion coordinator (\<^verbatim>\<open>RAGService\<close>), the completion
  orchestrator (\<^verbatim>\<open>AIService\<close>, \<^verbatim>\<open>ChatService\<close>) and the history listing.
  Python's \<^verbatim>\<open>str\<close> is a list of characters, unbounded \<^verbatim>\<open>int\<close> is \<open>int\<close>, a
  \<^verbatim>\<open>dict\<close> is an association list in insertion order (keys are never repeated by the
  operations below), an exception is the left injection of a sum, and a loop that may not
  terminate returns \<open>None\<close>.
\<close>

section \<open>Python primitives\<close>

text \<open>
  \<^verbatim>\<open>xs[i:j]\<close> for any integers: a negative bound counts from the end, and both bounds are
  clamped to the sequence.
\<close>

definition py_slice :: "'a list \<Rightarrow> int \<Rightarrow> int \<Rightarrow> 'a list" where
  "py_slice xs i j =
     (let n = int (length xs);
          lo = (if i < 0 then max 0 (n + i) else min i n);
          hi = (if j < 0 then max 0 (n + j) else min j n)
      in take (nat (hi - lo)) (drop (nat lo) xs))"

text \<open>\<^verbatim>\<open>sep.join(xs)\<close>.\<close>

fun join :: "string \<Rightarrow> string list \<Rightarrow> string" where
  "join sep [] = []"
| "join sep [x] = x"
| "join sep (x # y # ys) = x @ sep @ join sep (y # ys)"

text \<open>
  \<^verbatim>\<open>d.setdefault(k, default)\<close> on an insertion-ordered dictionary: a new key goes to the
  end, a present key is left alone.
\<close>

definition setdefault :: "'k \<Rightarrow> 'v \<Rightarrow> ('k \<times> 'v) list \<Rightarrow> ('k \<times> 'v) list" where
  "setdefault k v d = (if k \<in> fst ` set d then d else d @ [(k, v)])"

text \<open>\<^verbatim>\<open>d.get(k, default)\<close>.\<close>

definition dict_get :: "('k \<times> 'v) list \<Rightarrow> 'k \<Rightarrow> 'v \<Rightarrow> 'v" where
  "dict_get d k dflt = (case map_of d k of None \<Rightarrow> dflt | Some v \<Rightarrow> v)"

section \<open>Text segmenter: \<^verbatim>\<open>FileHandler.split_text\<close>\<close>

text \<open>
  \<^verbatim>\<open>
  async def split_text(self, text, chunk_size=1000, overlap=200):
      if not text:
          return []
      chunks = []
      start = 0
      while start < len(text):
          chunks.append(text[start:start + chunk_size])
          start += chunk_size - overlap
      return chunks
  \<close>
  The function has no \<^verbatim>\<open>raise\<close>: whenever it returns, it returns a list. The
  \<^verbatim>\<open>while\<close> loop need not terminate, so the model returns an option, \<open>None\<close> when the
  loop runs forever. The element type is left open: a text is a list of whatever
  \<^verbatim>\<open>len\<close> counts.
\<close>

partial_function (option) split_loop ::
  "'a list \<Rightarrow> int \<Rightarrow> int \<Rightarrow> int \<Rightarrow> 'a list list \<Rightarrow> 'a list list option" where
  "split_loop text chunk_size overlap start chunks =
     (if start < int (length text)
      then split_loop text chunk_size overlap (start + (chunk_size - overlap))
             (chunks @ [py_slice text start (start + chunk_size)])
      else Some chunks)"

declare split_loop.simps [code]

definition split_text :: "'a list \<Rightarrow> int \<Rightarrow> int \<Rightarrow> 'a list list option" where
  "split_text text chunk_size overlap =
     (if text = [] then Some [] else split_loop text chunk_size overlap 0 [])"

text \<open>\<^verbatim>\<open>FileHandler.extract_text\<close>: the file's text, or the empty text when the path does
  not exist. The file system is a map from paths to contents.\<close>

definition extract_text :: "(string \<Rightarrow> string option) \<Rightarrow> string \<Rightarrow> string" where
  "extract_text files filepath = (case files filepath of None \<Rightarrow> [] | Some t \<Rightarrow> t)"

section \<open>Vector services\<close>

text \<open>Metadata dictionaries hold strings and integers.\<close>

datatype mval = MStr string | MInt int

type_synonym metadata = "(string \<times> mval) list"

subsection \<open>The in-memory service (\<^verbatim>\<open>src/services/vector_service.py\<close>)\<close>

text \<open>
  \<^verbatim>\<open>self.index\<close> maps a document id to the list of its chunks, in insertion order.
\<close>

record vec_chunk =
  vc_chunk_id :: string
  vc_content :: string
  vc_embedding :: "real list"
  vc_metadata :: metadata

type_synonym mem_index = "(string \<times> vec_chunk list) list"

text \<open>\<^verbatim>\<open>self.index.setdefault(document_id, []).append({...})\<close>\<close>

definition VectorService_add_chunk ::
  "mem_index \<Rightarrow> string \<Rightarrow> string \<Rightarrow> string \<Rightarrow> real list \<Rightarrow> metadata \<Rightarrow> mem_index" where
  "VectorService_add_chunk index document_id chunk_id content embedding metadata =
     AList.map_entry document_id
       (\<lambda>chunks. chunks @ [\<lparr>vc_chunk_id = chunk_id, vc_content = content,
                            vc_embedding = embedding, vc_metadata = metadata\<rparr>])
       (setdefault document_id [] index)"

text \<open>\<^verbatim>\<open>if document_id in self.index: del self.index[document_id]\<close>\<close>

definition VectorService_delete_document :: "mem_index \<Rightarrow> string \<Rightarrow> mem_index" where
  "VectorService_delete_document index document_id =
     (if document_id \<in> fst ` set index then AList.delete document_id index else index)"

text \<open>
  \<^verbatim>\<open>
  async def search(self, query, document_ids=None, limit=10):
      results = []
      docs = document_ids if document_ids is not None else list(self.index.keys())
      for did in docs:
          for chunk in self.index.get(did, [])[:limit]:
              results.append({"document_id": did, "chunk_id": chunk["chunk_id"],
                              "content": chunk["content"], "score": 1.0,
                              "metadata": chunk.get("metadata", {})})
      return results
  \<close>
\<close>

record search_result =
  sr_document_id :: string
  sr_chunk_id :: string
  sr_content :: string
  sr_score :: real
  sr_metadata :: metadata

definition result_of_chunk :: "string \<Rightarrow> vec_chunk \<Rightarrow> search_result" where
  "result_of_chunk did chunk =
     \<lparr>sr_document_id = did, sr_chunk_id = vc_chunk_id chunk, sr_content = vc_content chunk,
      sr_score = 1, sr_metadata = vc_metadata chunk\<rparr>"

definition VectorService_search ::
  "mem_index \<Rightarrow> string \<Rightarrow> string list option \<Rightarrow> int \<Rightarrow> search_result list" where
  "VectorService_search index query document_ids limit =
     (let docs = (case document_ids of Some ids \<Rightarrow> ids | None \<Rightarrow> map fst index)
      in concat (map (\<lambda>did. map (result_of_chunk did) (py_slice (dict_get index did []) 0 limit))
                     docs))"

subsection \<open>The Chroma-backed service (\<^verbatim>\<open>VectorService\<close> over \<^verbatim>\<open>chromadb\<close>)\<close>

text \<open>
  The collection is an external library object. Its contract, as far as the service uses
  it: the collection holds entries (id, embedding, document, metadata); \<^verbatim>\<open>query\<close>
  considers the entries that satisfy \<^verbatim>\<open>where\<close> (every entry when \<^verbatim>\<open>where\<close> is
  \<^verbatim>\<open>None\<close>) and returns some of them with their distances to the query embedding, or
  raises; \<^verbatim>\<open>delete\<close> removes the entries that satisfy \<^verbatim>\<open>where\<close>. Which entries
  \<^verbatim>\<open>query\<close> returns, and in which order, is the library's business (an approximate
  nearest-neighbour index): the method, bound to the collection, is a parameter of the
  search below.
\<close>

record chroma_entry =
  ce_id :: string
  ce_embedding :: "real list"
  ce_document :: string
  ce_metadata :: metadata

datatype where_filter = WhereDocumentIdIn "string list" | WhereDocumentIdEq string

definition where_matches :: "where_filter option \<Rightarrow> chroma_entry \<Rightarrow> bool" where
  "where_matches w e =
     (case w of
        None \<Rightarrow> True
      | Some (WhereDocumentIdIn ids) \<Rightarrow>
          (case map_of (ce_metadata e) ''document_id'' of
             Some (MStr d) \<Rightarrow> d \<in> set ids
           | _ \<Rightarrow> False)
      | Some (WhereDocumentIdEq d) \<Rightarrow> map_of (ce_metadata e) ''document_id'' = Some (MStr d))"

type_synonym collection_query =
  "real list \<Rightarrow> int \<Rightarrow> where_filter option \<Rightarrow> string + (chroma_entry \<times> real) list"

definition collection_delete :: "chroma_entry list \<Rightarrow> where_filter \<Rightarrow> chroma_entry list" where
  "collection_delete collection w = filter (\<lambda>e. \<not> where_matches (Some w) e) collection"

text \<open>
  \<^verbatim>\<open>
  async def search(self, query, document_ids=None, limit=5):
      try:
          query_embedding = await ai_service.engine.embed(query)
          where_filter = None
          if document_ids:
              where_filter = {"document_id": {"$in": document_ids}}
          results = self.collection.query(query_embeddings=[query_embedding],
              n_results=limit, where=where_filter, include=[...])
          formatted_results = []
          if results['ids'][0]:
              for i in range(len(results['ids'][0])):
                  formatted_results.append({
                      "chunk_id": results['ids'][0][i],
                      "document_id": results['metadatas'][0][i].get("document_id"),
                      "document_name": results['metadatas'][0][i].get("document_name", "Unknown"),
                      "content": results['documents'][0][i],
                      "score": 1 - results['distances'][0][i]})
          return formatted_results
      except Exception as e:
          return []
  \<close>
  \<^verbatim>\<open>ai_service.engine.embed\<close> is a parameter; it returns the embedding or raises. So
  is the collection's \<^verbatim>\<open>query\<close>, called with the embedding, \<^verbatim>\<open>n_results\<close> and
  \<^verbatim>\<open>where\<close>. Whatever is raised inside \<^verbatim>\<open>try\<close> ends in \<^verbatim>\<open>return []\<close>. The
  collection is taken to be initialised (\<^verbatim>\<open>if not self.collection: await
  self.initialize()\<close> comes first).
\<close>

record chroma_result =
  cr_chunk_id :: string
  cr_document_id :: "mval option"
  cr_document_name :: mval
  cr_content :: string
  cr_score :: real

definition format_hit :: "chroma_entry \<times> real \<Rightarrow> chroma_result" where
  "format_hit hit =
     \<lparr>cr_chunk_id = ce_id (fst hit),
      cr_document_id = map_of (ce_metadata (fst hit)) ''document_id'',
      cr_document_name = dict_get (ce_metadata (fst hit)) ''document_name'' (MStr ''Unknown''),
      cr_content = ce_document (fst hit),
      cr_score = 1 - snd hit\<rparr>"

definition ChromaVectorService_search ::
  "(string \<Rightarrow> string + real list) \<Rightarrow> collection_query \<Rightarrow> string \<Rightarrow> string list option \<Rightarrow> int \<Rightarrow>
     chroma_result list" where
  "ChromaVectorService_search engine_embed collection_query query document_ids limit =
     (case engine_embed query of
        Inl e \<Rightarrow> []
      | Inr query_embedding \<Rightarrow>
          (let where_filter =
                 (case document_ids of
                    None \<Rightarrow> None
                  | Some ids \<Rightarrow> if ids \<noteq> [] then Some (WhereDocumentIdIn ids) else None)
           in case collection_query query_embedding limit where_filter of
                Inl e \<Rightarrow> []
              | Inr hits \<Rightarrow> map format_hit hits))"

text \<open>
  The \<^verbatim>\<open>ai_service\<close> that \<^verbatim>\<open>from src.core.ai_engine import ai_service\<close> finds in
  the repository (\<^verbatim>\<open>src/core/ai_engine.py\<close>) has the methods \<^verbatim>\<open>embed\<close>,
  \<^verbatim>\<open>chat_completion\<close> and \<^verbatim>\<open>stream_chat_completion\<close> and no attribute
  \<^verbatim>\<open>engine\<close>: with it \<^verbatim>\<open>ai_service.engine.embed(query)\<close> raises
  \<^verbatim>\<open>AttributeError\<close> for every query.
\<close>

definition AIService_engine_embed :: "string \<Rightarrow> string + real list" where
  "AIService_engine_embed query = Inl ''AttributeError''"

text \<open>\<^verbatim>\<open>self.collection.delete(where={"document_id": document_id})\<close>\<close>

definition ChromaVectorService_delete_document ::
  "chroma_entry list \<Rightarrow> string \<Rightarrow> chroma_entry list" where
  "ChromaVectorService_delete_document collection document_id =
     collection_delete collection (WhereDocumentIdEq document_id)"

section \<open>Ingestion coordinator: \<^verbatim>\<open>RAGService\<close>\<close>

text \<open>
  The relational store holds the tables \<^verbatim>\<open>documents\<close> and \<^verbatim>\<open>document_chunks\<close>, each a
  list of rows in insertion order; the columns no modelled statement reads or writes
  (file type, size, upload time) are left out. Every statement commits on its own
  (\<^verbatim>\<open>Database.execute\<close>), so what a failed attempt wrote before it failed stays written.
  The store itself is taken to be available: its statements do not raise.
  \<^verbatim>\<open>datetime.utcnow()\<close> reads a clock that is a counter advanced by each reading, and
  \<^verbatim>\<open>uuid.uuid4()\<close> draws the next identifier of a supply.
\<close>

record document_row =
  doc_id :: string
  doc_user_id :: string
  doc_filename :: string
  doc_filepath :: string
  doc_processed :: bool
  doc_chunks_count :: nat
  doc_processing_started :: "nat option"
  doc_processed_at :: "nat option"
  doc_processing_error :: "string option"

record chunk_row =
  chunk_row_id :: string
  chunk_document_id :: string
  chunk_content :: string
  chunk_index :: nat
  chunk_created_at :: nat

record 'v rag_state =
  documents :: "document_row list"
  document_chunks :: "chunk_row list"
  vector_service :: 'v
  uuids_drawn :: nat
  clock :: nat

text \<open>
  The collaborators of an attempt: the file system, the embedding provider
  (\<^verbatim>\<open>ai_service.embed\<close>, which returns an embedding or raises an exception with a
  message) and the identifier supply.
\<close>

record rag_env =
  env_files :: "string \<Rightarrow> string option"
  env_embed :: "string \<Rightarrow> string + real list"
  env_uuid4 :: "nat \<Rightarrow> string"

text \<open>\<^verbatim>\<open>UPDATE documents SET ... WHERE id = ?\<close>\<close>

definition update_document ::
  "string \<Rightarrow> (document_row \<Rightarrow> document_row) \<Rightarrow> document_row list \<Rightarrow> document_row list" where
  "update_document document_id f rows = map (\<lambda>d. if doc_id d = document_id then f d else d) rows"

text \<open>\<^verbatim>\<open>SELECT * FROM documents WHERE id = ? AND user_id = ?\<close>, first row.\<close>

definition fetch_document :: "document_row list \<Rightarrow> string \<Rightarrow> string \<Rightarrow> document_row option" where
  "fetch_document rows document_id user_id =
     find (\<lambda>d. doc_id d = document_id \<and> doc_user_id d = user_id) rows"

text \<open>
  The handler of \<^verbatim>\<open>process_document\<close>:
  \<^verbatim>\<open>UPDATE documents SET processing_error = ? WHERE id = ?\<close> with \<^verbatim>\<open>str(e)\<close>.
\<close>

definition record_error :: "'v rag_state \<Rightarrow> string \<Rightarrow> string \<Rightarrow> 'v rag_state" where
  "record_error s document_id e =
     s\<lparr>documents := update_document document_id (\<lambda>d. d\<lparr>doc_processing_error := Some e\<rparr>)
                       (documents s)\<rparr>"

text \<open>
  The loop of \<^verbatim>\<open>process_document\<close> over \<^verbatim>\<open>enumerate(chunks)\<close>:
  \<^verbatim>\<open>
  for i, chunk in enumerate(chunks):
      chunk_id = str(uuid.uuid4())
      embedding = await ai_service.embed(chunk)
      await self.vector_service.add_chunk(document_id=document_id, chunk_id=chunk_id,
          content=chunk, embedding=embedding,
          metadata={"document_name": document["filename"], "chunk_index": i,
                    "user_id": user_id})
      await self.db.execute("INSERT INTO document_chunks (id, document_id, content,
          chunk_index, created_at) VALUES (?, ?, ?, ?, ?)",
          (chunk_id, document_id, chunk, i, datetime.utcnow()))
  \<close>
  An exception leaves the loop with the state reached so far. The vector service is the
  object held in \<^verbatim>\<open>self.vector_service\<close>; its \<^verbatim>\<open>add_chunk\<close> is a parameter that
  returns the new service state or raises.
\<close>

fun process_chunks ::
  "('v \<Rightarrow> string \<Rightarrow> string \<Rightarrow> string \<Rightarrow> real list \<Rightarrow> metadata \<Rightarrow> string + 'v) \<Rightarrow> rag_env \<Rightarrow>
     string \<Rightarrow> string \<Rightarrow> string \<Rightarrow> (nat \<times> string) list \<Rightarrow> 'v rag_state \<Rightarrow>
     (string \<times> 'v rag_state) + 'v rag_state" where
  "process_chunks add_chunk env document_id user_id document_name [] s = Inr s"
| "process_chunks add_chunk env document_id user_id document_name ((i, chunk) # rest) s =
     (let chunk_id = env_uuid4 env (uuids_drawn s);
          s1 = s\<lparr>uuids_drawn := Suc (uuids_drawn s)\<rparr>
      in case env_embed env chunk of
           Inl e \<Rightarrow> Inl (e, s1)
         | Inr embedding \<Rightarrow>
             (case add_chunk (vector_service s1) document_id chunk_id chunk embedding
                     [(''document_name'', MStr document_name), (''chunk_index'', MInt (int i)),
                      (''user_id'', MStr user_id)] of
                Inl e \<Rightarrow> Inl (e, s1)
              | Inr v \<Rightarrow>
                  process_chunks add_chunk env document_id user_id document_name rest
                    (s1\<lparr>vector_service := v,
                        document_chunks := document_chunks s1 @
                          [\<lparr>chunk_row_id = chunk_id, chunk_document_id = document_id,
                            chunk_content = chunk, chunk_index = i,
                            chunk_created_at = clock s1\<rparr>],
                        clock := Suc (clock s1)\<rparr>)))"

text \<open>
  \<^verbatim>\<open>
  async def process_document(self, document_id, user_id):
      try:
          document = await self.db.fetch_one(
              "SELECT * FROM documents WHERE id = ? AND user_id = ?", (document_id, user_id))
          if not document:
              raise ValueError("Document not found")
          await self.db.execute("UPDATE documents SET processing_started = ? WHERE id = ?",
              (datetime.utcnow(), document_id))
          text = await self.file_handler.extract_text(document["filepath"])
          chunks = await self.file_handler.split_text(text)
          for i, chunk in enumerate(chunks): ...
          await self.db.execute("UPDATE documents SET processed = 1, chunks_count = ?,
              processed_at = ? WHERE id = ?", (len(chunks), datetime.utcnow(), document_id))
      except Exception as e:
          await self.db.execute("UPDATE documents SET processing_error = ? WHERE id = ?",
              (str(e), document_id))
  \<close>
  The result is the state after the call, \<open>None\<close> if the call does not return.
\<close>

definition RAGService_process_document ::
  "('v \<Rightarrow> string \<Rightarrow> string \<Rightarrow> string \<Rightarrow> real list \<Rightarrow> metadata \<Rightarrow> string + 'v) \<Rightarrow> rag_env \<Rightarrow>
     'v rag_state \<Rightarrow> string \<Rightarrow> string \<Rightarrow> 'v rag_state option" where
  "RAGService_process_document add_chunk env s document_id user_id =
     (case fetch_document (documents s) document_id user_id of
        None \<Rightarrow> Some (record_error s document_id ''Document not found'')
      | Some document \<Rightarrow>
          (let s1 = s\<lparr>documents :=
                        update_document document_id
                          (\<lambda>d. d\<lparr>doc_processing_started := Some (clock s)\<rparr>) (documents s),
                      clock := Suc (clock s)\<rparr>;
               text = extract_text (env_files env) (doc_filepath document)
           in case split_text text 1000 200 of
                None \<Rightarrow> None
              | Some chunks \<Rightarrow>
                  (case process_chunks add_chunk env document_id user_id (doc_filename document)
                          (enumerate 0 chunks) s1 of
                     Inl (e, s2) \<Rightarrow> Some (record_error s2 document_id e)
                   | Inr s2 \<Rightarrow>
                       Some (s2\<lparr>documents :=
                                  update_document document_id
                                    (\<lambda>d. d\<lparr>doc_processed := True,
                                            doc_chunks_count := length chunks,
                                            doc_processed_at := Some (clock s2)\<rparr>)
                                    (documents s2),
                                clock := Suc (clock s2)\<rparr>))))"

text \<open>The in-memory service's \<^verbatim>\<open>add_chunk\<close> has no failing path.\<close>

definition mem_add_chunk ::
  "mem_index \<Rightarrow> string \<Rightarrow> string \<Rightarrow> string \<Rightarrow> real list \<Rightarrow> metadata \<Rightarrow> string + mem_index" where
  "mem_add_chunk index document_id chunk_id content embedding metadata =
     Inr (VectorService_add_chunk index document_id chunk_id content embedding metadata)"

text \<open>
  \<^verbatim>\<open>
  async def delete_document(self, document_id, user_id) -> bool:
      try:
          await self.vector_service.delete_document(document_id)
          await self.db.execute("DELETE FROM document_chunks WHERE document_id = ?",
              (document_id,))
          result = await self.db.execute(
              "DELETE FROM documents WHERE id = ? AND user_id = ?", (document_id, user_id))
          return result.rowcount > 0
      except Exception as e:
          return False
  \<close>
  Neither vector service lets an exception out of its \<^verbatim>\<open>delete_document\<close>, which is a
  parameter here.
\<close>

definition RAGService_delete_document ::
  "('v \<Rightarrow> string \<Rightarrow> 'v) \<Rightarrow> 'v rag_state \<Rightarrow> string \<Rightarrow> string \<Rightarrow> 'v rag_state \<times> bool" where
  "RAGService_delete_document vs_delete_document s document_id user_id =
     (let s1 = s\<lparr>vector_service := vs_delete_document (vector_service s) document_id\<rparr>;
          s2 = s1\<lparr>document_chunks :=
                    filter (\<lambda>r. chunk_document_id r \<noteq> document_id) (document_chunks s1)\<rparr>;
          rowcount = length (filter (\<lambda>d. doc_id d = document_id \<and> doc_user_id d = user_id)
                               (documents s2));
          s3 = s2\<lparr>documents :=
                    filter (\<lambda>d. \<not> (doc_id d = document_id \<and> doc_user_id d = user_id))
                      (documents s2)\<rparr>
      in (s3, 0 < rowcount))"

text \<open>
  \<^verbatim>\<open>
  async def search_documents(self, query, user_id, limit=10):
      try:
          user_docs = await self.db.fetch_all(
              "SELECT id FROM documents WHERE user_id = ? AND processed = 1", (user_id,))
          document_ids = [doc["id"] for doc in user_docs]
          results = await self.vector_service.search(query=query,
              document_ids=document_ids, limit=limit)
          return results
      except Exception as e:
          return []
  \<close>
  Neither vector service lets an exception out of its \<^verbatim>\<open>search\<close>, which is a parameter.
\<close>

definition RAGService_search_documents ::
  "('v \<Rightarrow> string \<Rightarrow> string list option \<Rightarrow> int \<Rightarrow> 'r list) \<Rightarrow> 'v rag_state \<Rightarrow> string \<Rightarrow> string \<Rightarrow>
     int \<Rightarrow> 'r list" where
  "RAGService_search_documents vs_search s query user_id limit =
     (let user_docs = filter (\<lambda>d. doc_user_id d = user_id \<and> doc_processed d) (documents s);
          document_ids = map doc_id user_docs
      in vs_search (vector_service s) query (Some document_ids) limit)"

section \<open>Completion orchestrator: \<^verbatim>\<open>AIService\<close> and \<^verbatim>\<open>ChatService\<close>\<close>

text \<open>
  The repository holds two \<^verbatim>\<open>AIService\<close> classes. The module
  \<^verbatim>\<open>src/core/ai_engine.py\<close>, which \<^verbatim>\<open>ChatService\<close> imports, answers with fixed
  texts; the class of \<^verbatim>\<open>deepseek_python_20251231_c27715.py\<close> asks an Ollama backend
  through \<^verbatim>\<open>OllamaEngine\<close>. Both are modelled, the second under the name
  \<open>OllamaAIService\<close>, and \<^verbatim>\<open>ChatService\<close> takes the two methods it calls as
  parameters.
\<close>

record completion_kwargs =
  kw_model :: "string option"
  kw_temperature :: real
  kw_max_tokens :: int

record message =
  msg_role :: string
  msg_content :: string

text \<open>
  The completion envelope: the fields \<^verbatim>\<open>model\<close> and
  \<^verbatim>\<open>choices[0].message.content\<close>, which both classes fill, and
  \<^verbatim>\<open>choices[0].message.role\<close> and \<^verbatim>\<open>choices[0].finish_reason\<close>, which only the
  Ollama-backed class fills. The envelope's \<^verbatim>\<open>id\<close>, \<^verbatim>\<open>created\<close> and \<^verbatim>\<open>usage\<close>
  (a salted hash, the event loop's time and word counts) are left out: nothing below
  reads them.
\<close>

record completion =
  cc_model :: "string option"
  cc_role :: "string option"
  cc_content :: string
  cc_finish_reason :: "string option"

text \<open>
  JSON values, and the two functions of the \<^verbatim>\<open>json\<close> library as parameters:
  \<^verbatim>\<open>dumps\<close> prints a value, \<^verbatim>\<open>loads\<close> parses a text or raises (\<open>None\<close>).
\<close>

datatype json =
  JNull | JBool bool | JNumber real | JString string | JArray "json list"
| JObject "(string \<times> json) list"

text \<open>\<^verbatim>\<open>{'choices': [{'delta': {'content': chunk}}]}\<close>\<close>

definition delta_object :: "string \<Rightarrow> json" where
  "delta_object chunk =
     JObject [(''choices'', JArray [JObject [(''delta'', JObject [(''content'', JString chunk)])]])]"

subsection \<open>\<^verbatim>\<open>AIService\<close> of \<^verbatim>\<open>src/core/ai_engine.py\<close>\<close>

text \<open>
  \<^verbatim>\<open>
  async def chat_completion(self, messages, model=None, temperature=0.7, max_tokens=4096):
      await asyncio.sleep(0.05)
      content = "This is a mocked chat completion response."
      return {"choices": [{"message": {"content": content}}],
              "usage": {"total_tokens": 0}, "model": model}
  \<close>
\<close>

definition AIService_chat_completion ::
  "message list \<Rightarrow> completion_kwargs \<Rightarrow> string + completion" where
  "AIService_chat_completion messages kwargs =
     Inr \<lparr>cc_model = kw_model kwargs, cc_role = None,
          cc_content = ''This is a mocked chat completion response.'',
          cc_finish_reason = None\<rparr>"

text \<open>
  \<^verbatim>\<open>
  async def stream_chat_completion(self, messages, model=None, temperature=0.7,
                                   max_tokens=4096):
      chunks = ["This is ", "a streamed ", "mocked response."]
      for c in chunks:
          await asyncio.sleep(0.1)
          data = {"choices": [{"delta": {"content": c}}]}
          yield f"data: {json.dumps(data)}\n\n"
  \<close>
\<close>

definition AIService_stream_chat_completion ::
  "(json \<Rightarrow> string) \<Rightarrow> message list \<Rightarrow> completion_kwargs \<Rightarrow> string list" where
  "AIService_stream_chat_completion dumps messages kwargs =
     map (\<lambda>c. ''data: '' @ dumps (delta_object c) @ ''\<newline>\<newline>'')
       [''This is '', ''a streamed '', ''mocked response.'']"

subsection \<open>The model backend of \<^verbatim>\<open>OllamaEngine\<close>\<close>

text \<open>
  The Ollama client is an external capability. A request carries the model name, the
  prompt and the options; \<^verbatim>\<open>generate\<close> without \<^verbatim>\<open>stream\<close> returns the response text
  or raises, and with \<^verbatim>\<open>stream=True\<close> it yields chunks, each with or without a
  \<^verbatim>\<open>response\<close> field, and may raise after any of them. Both engine methods build the
  same options from the keyword arguments \<^verbatim>\<open>ChatService\<close> passes (\<^verbatim>\<open>model\<close>,
  \<^verbatim>\<open>temperature\<close>, \<^verbatim>\<open>max_tokens\<close>): \<^verbatim>\<open>top_p\<close> takes its default 0.9, and the
  \<^verbatim>\<open>seed\<close> of \<^verbatim>\<open>generate\<close>, never passed, is \<^verbatim>\<open>None\<close> and filtered out.
\<close>

record generate_request =
  rq_model :: "string option"
  rq_prompt :: string
  rq_temperature :: real
  rq_top_p :: real
  rq_max_tokens :: int

record ollama_client =
  client_generate :: "generate_request \<Rightarrow> string + string"
  client_stream :: "generate_request \<Rightarrow> string option list \<times> string option"

definition engine_request :: "string \<Rightarrow> completion_kwargs \<Rightarrow> generate_request" where
  "engine_request prompt kwargs =
     \<lparr>rq_model = kw_model kwargs, rq_prompt = prompt, rq_temperature = kw_temperature kwargs,
      rq_top_p = 9 / 10, rq_max_tokens = kw_max_tokens kwargs\<rparr>"

text \<open>\<^verbatim>\<open>OllamaEngine.generate\<close>: the response text; an exception is logged and raised again.\<close>

definition OllamaEngine_generate ::
  "ollama_client \<Rightarrow> string \<Rightarrow> completion_kwargs \<Rightarrow> string + string" where
  "OllamaEngine_generate client prompt kwargs = client_generate client (engine_request prompt kwargs)"

text \<open>
  \<^verbatim>\<open>
  async def stream_generate(self, prompt, **kwargs):
      try:
          stream = await self.client.generate(model=model, prompt=prompt,
              options=options, stream=True)
          async for chunk in stream:
              if 'response' in chunk:
                  yield chunk['response']
      except Exception as e:
          yield f"Error: {str(e)}"
  \<close>
\<close>

definition OllamaEngine_stream_generate ::
  "ollama_client \<Rightarrow> string \<Rightarrow> completion_kwargs \<Rightarrow> string list" where
  "OllamaEngine_stream_generate client prompt kwargs =
     (case client_stream client (engine_request prompt kwargs) of
        (chunks, failure) \<Rightarrow>
          List.map_filter id chunks @
          (case failure of None \<Rightarrow> [] | Some e \<Rightarrow> [''Error: '' @ e]))"

subsection \<open>\<^verbatim>\<open>AIService\<close> over \<^verbatim>\<open>OllamaEngine\<close>\<close>

text \<open>
  \<^verbatim>\<open>
  def _format_messages(self, messages):
      formatted = []
      for msg in messages:
          role = msg['role']; content = msg['content']
          if role == 'system': formatted.append(f"System: {content}")
          elif role == 'user': formatted.append(f"User: {content}")
          elif role == 'assistant': formatted.append(f"Assistant: {content}")
      return "\n".join(formatted) + "\nAssistant:"
  \<close>
\<close>

definition format_message :: "message \<Rightarrow> string option" where
  "format_message msg =
     (if msg_role msg = ''system'' then Some (''System: '' @ msg_content msg)
      else if msg_role msg = ''user'' then Some (''User: '' @ msg_content msg)
      else if msg_role msg = ''assistant'' then Some (''Assistant: '' @ msg_content msg)
      else None)"

definition OllamaAIService_format_messages :: "message list \<Rightarrow> string" where
  "OllamaAIService_format_messages messages =
     join ''\<newline>'' (List.map_filter format_message messages) @ ''\<newline>Assistant:''"

text \<open>
  \<^verbatim>\<open>
  async def chat_completion(self, messages, **kwargs):
      prompt = self._format_messages(messages)
      response = await self.engine.generate(prompt, **kwargs)
      return {..., 'model': kwargs.get('model', 'qwen2.5:7b'),
              'choices': [{'index': 0,
                           'message': {'role': 'assistant', 'content': response},
                           'finish_reason': 'stop'}], ...}
  \<close>
  \<^verbatim>\<open>ChatService\<close> always passes \<^verbatim>\<open>model\<close>, so the default of \<^verbatim>\<open>kwargs.get\<close> is not
  used.
\<close>

definition OllamaAIService_chat_completion ::
  "ollama_client \<Rightarrow> message list \<Rightarrow> completion_kwargs \<Rightarrow> string + completion" where
  "OllamaAIService_chat_completion client messages kwargs =
     (case OllamaEngine_generate client (OllamaAIService_format_messages messages) kwargs of
        Inl e \<Rightarrow> Inl e
      | Inr response \<Rightarrow>
          Inr \<lparr>cc_model = kw_model kwargs, cc_role = Some ''assistant'', cc_content = response,
               cc_finish_reason = Some ''stop''\<rparr>)"

text \<open>
  \<^verbatim>\<open>
  async def stream_chat_completion(self, messages, **kwargs):
      prompt = self._format_messages(messages)
      async for chunk in self.engine.stream_generate(prompt, **kwargs):
          yield f"data: {json.dumps({'choices': [{'delta': {'content': chunk}}]})}\n\n"
      yield "data: [DONE]\n\n"
  \<close>
\<close>

definition OllamaAIService_stream_chat_completion ::
  "(json \<Rightarrow> string) \<Rightarrow> ollama_client \<Rightarrow> message list \<Rightarrow> completion_kwargs \<Rightarrow> string list" where
  "OllamaAIService_stream_chat_completion dumps client messages kwargs =
     map (\<lambda>chunk. ''data: '' @ dumps (delta_object chunk) @ ''\<newline>\<newline>'')
       (OllamaEngine_stream_generate client (OllamaAIService_format_messages messages) kwargs) @
     [''data: [DONE]\<newline>\<newline>'']"

subsection \<open>\<^verbatim>\<open>ChatService\<close>\<close>

text \<open>
  \<^verbatim>\<open>
  async def create_completion(self, messages, model=None, temperature=0.7,
                              max_tokens=4096, user_id=None):
      try:
          response = await ai_service.chat_completion(messages=messages, model=model,
              temperature=temperature, max_tokens=max_tokens)
          if user_id:
              await self.save_to_history(...)
          return response
      except Exception as e:
          raise
  \<close>
  \<^verbatim>\<open>create_completion\<close> returns the envelope of \<^verbatim>\<open>ai_service.chat_completion\<close> and
  raises what it raises; \<^verbatim>\<open>save_to_history\<close> catches its own exceptions and changes
  only the history table, which the two functions here do not read.
\<close>

definition ChatService_create_completion ::
  "(message list \<Rightarrow> completion_kwargs \<Rightarrow> string + completion) \<Rightarrow> message list \<Rightarrow>
     completion_kwargs \<Rightarrow> string + completion" where
  "ChatService_create_completion chat_completion messages kwargs =
     (case chat_completion messages kwargs of
        Inl e \<Rightarrow> Inl e
      | Inr response \<Rightarrow> Inr response)"

text \<open>
  What one frame adds to the buffer of \<^verbatim>\<open>stream_completion\<close>:
  \<^verbatim>\<open>
  if chunk.startswith("data: "):
      try:
          data = json.loads(chunk[6:])
          if data != "[DONE]":
              content = data.get("choices", [{}])[0].get("delta", {}).get("content", "")
              full_response += content
      except:
          pass
  \<close>
  \<open>delta_content\<close> is the text to append, \<open>None\<close> when nothing is appended: the value is
  the string \<^verbatim>\<open>[DONE]\<close>, or an attribute, index, key or type error is raised on the way
  (a value without \<^verbatim>\<open>get\<close>, an empty list, a content that is not a string).
\<close>

definition delta_content :: "json \<Rightarrow> string option" where
  "delta_content data =
     (if data = JString ''[DONE]'' then None
      else case data of
        JObject d \<Rightarrow>
          (case dict_get d ''choices'' (JArray [JObject []]) of
             JArray (JObject choice # _) \<Rightarrow>
               (case dict_get choice ''delta'' (JObject []) of
                  JObject delta \<Rightarrow>
                    (case dict_get delta ''content'' (JString []) of
                       JString content \<Rightarrow> Some content
                     | _ \<Rightarrow> None)
                | _ \<Rightarrow> None)
           | _ \<Rightarrow> None)
      | _ \<Rightarrow> None)"

definition accumulate :: "(string \<Rightarrow> json option) \<Rightarrow> string \<Rightarrow> string \<Rightarrow> string" where
  "accumulate loads full_response chunk =
     (if take 6 chunk = ''data: '' then
        (case loads (drop 6 chunk) of
           None \<Rightarrow> full_response
         | Some data \<Rightarrow>
             (case delta_content data of
                None \<Rightarrow> full_response
              | Some content \<Rightarrow> full_response @ content))
      else full_response)"

text \<open>
  \<^verbatim>\<open>
  async def stream_completion(self, messages, model=None, temperature=0.7,
                              max_tokens=4096, user_id=None):
      full_response = ""
      async for chunk in ai_service.stream_chat_completion(messages=messages, model=model,
              temperature=temperature, max_tokens=max_tokens):
          yield chunk
          ...
  \<close>
  \<^verbatim>\<open>stream_completion\<close> forwards every frame of \<^verbatim>\<open>ai_service.stream_chat_completion\<close>
  and accumulates; the result is the frames forwarded and the final buffer
  \<^verbatim>\<open>full_response\<close>, the text handed to the history store.
\<close>

definition ChatService_stream_completion ::
  "(string \<Rightarrow> json option) \<Rightarrow> (message list \<Rightarrow> completion_kwargs \<Rightarrow> string list) \<Rightarrow> message list \<Rightarrow>
     completion_kwargs \<Rightarrow> string list \<times> string" where
  "ChatService_stream_completion loads stream_chat_completion messages kwargs =
     (let frames = stream_chat_completion messages kwargs
      in (frames, foldl (accumulate loads) [] frames))"

section \<open>History store: \<^verbatim>\<open>ChatService.get_history\<close>\<close>

text \<open>
  The table \<^verbatim>\<open>chat_history\<close>, in insertion order, with the columns the listing reads;
  timestamps are integers.
\<close>

record history_row =
  h_user_id :: string
  h_conversation_id :: string
  h_role :: string
  h_message :: string
  h_created_at :: int

text \<open>
  \<^verbatim>\<open>SELECT * FROM chat_history WHERE user_id = ? ORDER BY created_at DESC LIMIT ? OFFSET ?\<close>.
  In SQLite a negative limit is no limit and a negative offset is zero. The order among
  rows of equal \<^verbatim>\<open>created_at\<close> is the table order (the sort is stable); SQL leaves it
  open, and nothing proved below depends on it.
\<close>

definition sql_limit :: "int \<Rightarrow> int \<Rightarrow> 'a list \<Rightarrow> 'a list" where
  "sql_limit limit offset rows =
     (let rest = drop (nat offset) rows in if limit < 0 then rest else take (nat limit) rest)"

definition fetch_history :: "history_row list \<Rightarrow> string \<Rightarrow> int \<Rightarrow> int \<Rightarrow> history_row list" where
  "fetch_history chat_history user_id limit offset =
     sql_limit limit offset
       (sort_key (\<lambda>r. - h_created_at r) (filter (\<lambda>r. h_user_id r = user_id) chat_history))"

text \<open>
  \<^verbatim>\<open>
  conversations = {}
  for row in rows:
      conv_id = row["conversation_id"]
      if conv_id not in conversations:
          conversations[conv_id] = {"conversation_id": conv_id, "messages": [],
                                    "created_at": row["created_at"]}
      conversations[conv_id]["messages"].append({"role": row["role"],
          "content": row["message"], "timestamp": row["created_at"]})
  return list(conversations.values())
  \<close>
\<close>

record history_message =
  hm_role :: string
  hm_content :: string
  hm_timestamp :: int

record conversation =
  cv_conversation_id :: string
  cv_messages :: "history_message list"
  cv_created_at :: int

definition message_of_row :: "history_row \<Rightarrow> history_message" where
  "message_of_row row =
     \<lparr>hm_role = h_role row, hm_content = h_message row, hm_timestamp = h_created_at row\<rparr>"

definition add_row :: "(string \<times> conversation) list \<Rightarrow> history_row \<Rightarrow> (string \<times> conversation) list" where
  "add_row conversations row =
     (let conv_id = h_conversation_id row;
          conversations1 =
            (if conv_id \<notin> fst ` set conversations
             then conversations @
                    [(conv_id, \<lparr>cv_conversation_id = conv_id, cv_messages = [],
                                cv_created_at = h_created_at row\<rparr>)]
             else conversations)
      in AList.map_entry conv_id
           (\<lambda>c. c\<lparr>cv_messages := cv_messages c @ [message_of_row row]\<rparr>) conversations1)"

definition group_rows :: "history_row list \<Rightarrow> conversation list" where
  "group_rows rows = map snd (foldl add_row [] rows)"

text \<open>
  The query binds \<^verbatim>\<open>limit\<close> and \<^verbatim>\<open>offset\<close> as SQLite integers, which are signed
  64-bit: for a Python \<^verbatim>\<open>int\<close> outside that range the \<^verbatim>\<open>sqlite3\<close> module raises
  \<^verbatim>\<open>OverflowError\<close>, and the handler of \<^verbatim>\<open>get_history\<close> returns \<^verbatim>\<open>[]\<close>:
  \<^verbatim>\<open>
  try:
      rows = await self.db.fetch_all(..., (user_id, limit, offset))
      ...
      return list(conversations.values())
  except Exception as e:
      return []
  \<close>
\<close>

definition sqlite_integer :: "int \<Rightarrow> bool" where
  "sqlite_integer n = (- (2 ^ 63) \<le> n \<and> n < 2 ^ 63)"

definition ChatService_get_history ::
  "history_row list \<Rightarrow> string \<Rightarrow> int \<Rightarrow> int \<Rightarrow> conversation list" where
  "ChatService_get_history chat_history user_id limit offset =
     (if sqlite_integer limit \<and> sqlite_integer offset
      then group_rows (fetch_history chat_history user_id limit offset)
      else [])"
section \<open>Auxiliary notions for the proofs\<close>

text \<open>
  The number of iterations the segmenter's loop makes from a position with \<open>remaining\<close>
  characters ahead and a positive \<open>step\<close> (the ceiling of their quotient), and the window
  its \<open>k\<close>-th iteration emits.
\<close>

definition window_count :: "int \<Rightarrow> int \<Rightarrow> nat" where
  "window_count remaining step = nat (- ((- remaining) div step))"

definition window :: "'a list \<Rightarrow> int \<Rightarrow> int \<Rightarrow> int \<Rightarrow> nat \<Rightarrow> 'a list" where
  "window T cs ov start k =
     py_slice T (start + int k * (cs - ov)) (start + int k * (cs - ov) + cs)"

text \<open>
  What the in-memory search returns for one document of the list: the inner loop of
  \<^verbatim>\<open>VectorService.search\<close>.
\<close>

definition doc_results :: "mem_index \<Rightarrow> int \<Rightarrow> string \<Rightarrow> search_result list" where
  "doc_results index limit did = map (result_of_chunk did) (py_slice (dict_get index did []) 0 limit)"

text \<open>
  An index built by three insertions: two chunks of document \<open>d1\<close>, then one of \<open>d2\<close>.
\<close>

definition example_index :: mem_index where
  "example_index =
     VectorService_add_chunk
       (VectorService_add_chunk
          (VectorService_add_chunk [] ''d1'' ''c1'' ''first'' [] [])
          ''d1'' ''c2'' ''second'' [] [])
       ''d2'' ''c3'' ''third'' [] []"

text \<open>
  What the in-memory index and the chunk table hold for one document: the contents of the
  indexed chunks in insertion order, and the (index, content) pairs of its chunk rows.
\<close>

definition indexed_contents :: "mem_index rag_state \<Rightarrow> string \<Rightarrow> string list" where
  "indexed_contents s document_id = map vc_content (dict_get (vector_service s) document_id [])"

definition stored_chunks :: "'v rag_state \<Rightarrow> string \<Rightarrow> (nat \<times> string) list" where
  "stored_chunks s document_id =
     map (\<lambda>r. (chunk_index r, chunk_content r))
       (filter (\<lambda>r. chunk_document_id r = document_id) (document_chunks s))"

text \<open>
  An environment for the examples: two files, an embedding provider that fails on every
  text of 700 characters, and identifiers \<open>u\<close>, \<open>uu\<close>, \<dots>; a state with one
  unprocessed document of user \<open>u1\<close>; the states reached by processing the document \<open>d2\<close>
  once and twice; and a Chroma collection holding one chunk of a document of user \<open>u1\<close>.
\<close>

definition example_env :: rag_env where
  "example_env =
     \<lparr>env_files = (\<lambda>p. if p = ''/docs/a.txt'' then Some (replicate 1500 (CHR ''a''))
                       else if p = ''/docs/b.txt'' then Some ''hello'' else None),
      env_embed = (\<lambda>t. if length t = 700 then Inl ''embedding provider down'' else Inr []),
      env_uuid4 = (\<lambda>n. replicate (Suc n) (CHR ''u''))\<rparr>"

definition example_document :: "string \<Rightarrow> string \<Rightarrow> document_row" where
  "example_document document_id path =
     \<lparr>doc_id = document_id, doc_user_id = ''u1'', doc_filename = ''notes'',
      doc_filepath = path, doc_processed = False, doc_chunks_count = 0,
      doc_processing_started = None, doc_processed_at = None, doc_processing_error = None\<rparr>"

definition example_state :: "string \<Rightarrow> string \<Rightarrow> mem_index rag_state" where
  "example_state document_id path =
     \<lparr>documents = [example_document document_id path],
      document_chunks = [], vector_service = [], uuids_drawn = 0, clock = 0\<rparr>"

definition example_processed_once :: "mem_index rag_state" where
  "example_processed_once =
     \<lparr>documents = [\<lparr>doc_id = ''d2'', doc_user_id = ''u1'', doc_filename = ''notes'',
                     doc_filepath = ''/docs/b.txt'', doc_processed = True, doc_chunks_count = 1,
                     doc_processing_started = Some 0, doc_processed_at = Some 2,
                     doc_processing_error = None\<rparr>],
      document_chunks = [\<lparr>chunk_row_id = ''u'', chunk_document_id = ''d2'',
                           chunk_content = ''hello'', chunk_index = 0, chunk_created_at = 1\<rparr>],
      vector_service = [(''d2'', [\<lparr>vc_chunk_id = ''u'', vc_content = ''hello'',
                           vc_embedding = [],
                           vc_metadata = [(''document_name'', MStr ''notes''),
                             (''chunk_index'', MInt 0), (''user_id'', MStr ''u1'')]\<rparr>])],
      uuids_drawn = 1, clock = 3\<rparr>"

definition example_processed_twice :: "mem_index rag_state" where
  "example_processed_twice =
     \<lparr>documents = [\<lparr>doc_id = ''d2'', doc_user_id = ''u1'', doc_filename = ''notes'',
                     doc_filepath = ''/docs/b.txt'', doc_processed = True, doc_chunks_count = 1,
                     doc_processing_started = Some 3, doc_processed_at = Some 5,
                     doc_processing_error = None\<rparr>],
      document_chunks = [\<lparr>chunk_row_id = ''u'', chunk_document_id = ''d2'',
                           chunk_content = ''hello'', chunk_index = 0, chunk_created_at = 1\<rparr>,
                         \<lparr>chunk_row_id = ''uu'', chunk_document_id = ''d2'',
                           chunk_content = ''hello'', chunk_index = 0, chunk_created_at = 4\<rparr>],
      vector_service = [(''d2'', [\<lparr>vc_chunk_id = ''u'', vc_content = ''hello'',
                           vc_embedding = [],
                           vc_metadata = [(''document_name'', MStr ''notes''),
                             (''chunk_index'', MInt 0), (''user_id'', MStr ''u1'')]\<rparr>,
                         \<lparr>vc_chunk_id = ''uu'', vc_content = ''hello'',
                           vc_embedding = [],
                           vc_metadata = [(''document_name'', MStr ''notes''),
                             (''chunk_index'', MInt 0), (''user_id'', MStr ''u1'')]\<rparr>])],
      uuids_drawn = 2, clock = 6\<rparr>"

definition example_collection :: "chroma_entry list" where
  "example_collection =
     [\<lparr>ce_id = ''c1'', ce_embedding = [], ce_document = ''salary table'',
       ce_metadata = [(''document_id'', MStr ''d1''), (''chunk_id'', MStr ''c1''),
                      (''document_name'', MStr ''payroll''), (''chunk_index'', MInt 0),
                      (''user_id'', MStr ''u1'')]\<rparr>]"

text \<open>
  A \<^verbatim>\<open>query\<close> method for the example collection, which holds a single entry.
\<close>

definition example_collection_query :: collection_query where
  "example_collection_query query_embedding n_results w =
     (if n_results \<le> 0 then Inl ''Number of requested results cannot be negative, or zero''
      else Inr (take (nat n_results)
                  (map (\<lambda>e. (e, 0)) (filter (where_matches w) example_collection))))"
text \<open>A history with one conversation: a user turn at time 1, the assistant's at time 2.\<close>

definition example_history :: "history_row list" where
  "example_history =
     [\<lparr>h_user_id = ''u1'', h_conversation_id = ''k1'', h_role = ''user'', h_message = ''hi'',
       h_created_at = 1\<rparr>,
      \<lparr>h_user_id = ''u1'', h_conversation_id = ''k1'', h_role = ''assistant'',
       h_message = ''hello'', h_created_at = 2\<rparr>]"

text \<open>
  The elements of a list in the order of their first occurrence; the fetched rows of one
  conversation; the conversation the listing builds from them; and rows ordered newest
  first.
\<close>

definition first_seen :: "'a list \<Rightarrow> 'a list" where
  "first_seen xs = rev (remdups (rev xs))"

definition rows_of :: "history_row list \<Rightarrow> string \<Rightarrow> history_row list" where
  "rows_of rows conv_id = filter (\<lambda>r. h_conversation_id r = conv_id) rows"

definition conversation_of :: "history_row list \<Rightarrow> string \<Rightarrow> conversation" where
  "conversation_of rows conv_id =
     \<lparr>cv_conversation_id = conv_id,
      cv_messages = map message_of_row (rows_of rows conv_id),
      cv_created_at = h_created_at (hd (rows_of rows conv_id))\<rparr>"

definition newest_first :: "history_row list \<Rightarrow> bool" where
  "newest_first rows = sorted_wrt (\<lambda>a b. h_created_at b \<le> h_created_at a) rows"

text \<open>
  A JSON codec for the examples: it prints an object with a delta content as
  \<^verbatim>\<open>{delta:...}\<close> and every other value as \<^verbatim>\<open>null\<close>, and it parses exactly the
  texts \<^verbatim>\<open>{delta:...}\<close> followed by two newlines. A backend that answers every
  request with \<^verbatim>\<open>Hello, world\<close>, streamed in three chunks after a chunk without a
  \<^verbatim>\<open>response\<close> field.
\<close>

definition example_dumps :: "json \<Rightarrow> string" where
  "example_dumps j = (case delta_content j of Some c \<Rightarrow> ''{delta:'' @ c @ ''}'' | None \<Rightarrow> ''null'')"

definition example_loads :: "string \<Rightarrow> json option" where
  "example_loads s =
     (if take 7 s = ''{delta:'' \<and> 10 \<le> length s \<and> drop (length s - 3) s = ''}\<newline>\<newline>''
      then Some (delta_object (take (length s - 10) (drop 7 s)))
      else None)"

definition example_client :: ollama_client where
  "example_client =
     \<lparr>client_generate = (\<lambda>rq. Inr ''Hello, world''),
      client_stream = (\<lambda>rq. ([None, Some ''Hel'', Some ''lo, '', Some ''world''], None))\<rparr>"

definition example_kwargs :: completion_kwargs where
  "example_kwargs = \<lparr>kw_model = None, kw_temperature = 7 / 10, kw_max_tokens = 4096\<rparr>"

definition example_messages :: "message list" where
  "example_messages = [\<lparr>msg_role = ''user'', msg_content = ''Say hello''\<rparr>]"

chapter \<open>Verification\<close>

section \<open>Text segmenter\<close>

subsection \<open>The loop: divergence and the windows it emits\<close>

text \<open>
  With a step \<open>chunk_size - overlap\<close> that is not positive the loop never leaves a
  position inside the text; with a positive step it emits one window per start position
  \<open>start, start + step, \<dots>\<close> below the length of the text.
\<close>

lemma split_loop_Some_progress:
  assumes "split_loop T cs ov start chunks = Some r"
  shows "\<not> (cs - ov \<le> 0 \<and> start < int (length T))"
  by (rule split_loop.raw_induct[OF _ assms]) (fastforce split: if_splits)

lemma split_loop_diverges:
  assumes "cs - ov \<le> 0" "start < int (length T)"
  shows "split_loop T cs ov start chunks = None"
  using assms split_loop_Some_progress[of T cs ov start chunks]
  by (cases "split_loop T cs ov start chunks") auto

subsection \<open>Counting the windows\<close>

lemma window_count_nonpos: "0 < step \<Longrightarrow> remaining \<le> 0 \<Longrightarrow> window_count remaining step = 0"
  unfolding window_count_def
  by (simp add: pos_imp_zdiv_nonneg_iff)

lemma window_count_step:
  assumes "0 < step" "0 < remaining"
  shows "window_count remaining step = Suc (window_count (remaining - step) step)"
proof -
  have e: "(- (remaining - step)) div step = (- remaining) div step + 1"
  proof -
    have "(- remaining + step) div step = (- remaining) div step + 1"
      using assms by (subst div_add_self2) auto
    then show ?thesis by (simp add: algebra_simps)
  qed
  have "(- remaining) div step < 0"
    using assms by (simp add: div_neg_pos_less0)
  then have "0 \<le> - ((- (remaining - step)) div step)"
    using e by linarith
  then show ?thesis
    unfolding window_count_def using e by (simp add: nat_add_distrib Suc_nat_eq_nat_zadd1)
qed

lemma window_count_ceiling:
  "0 < step \<Longrightarrow> window_count remaining step = nat \<lceil>real_of_int remaining / real_of_int step\<rceil>"
  unfolding window_count_def by (simp add: ceiling_divide_eq_div)

lemma split_loop_windows:
  assumes "0 < cs - ov"
  shows "split_loop T cs ov start chunks =
           Some (chunks @ map (window T cs ov start) [0..<window_count (int (length T) - start) (cs - ov)])"
proof (induction "nat (int (length T) - start)" arbitrary: start chunks rule: less_induct)
  case less
  show ?case
  proof (cases "start < int (length T)")
    case False
    then have "window_count (int (length T) - start) (cs - ov) = 0"
      using assms by (simp add: window_count_nonpos)
    with False show ?thesis by (simp add: split_loop.simps)
  next
    case True
    let ?s = "start + (cs - ov)"
    have m: "nat (int (length T) - ?s) < nat (int (length T) - start)"
      using True assms by linarith
    have c: "window_count (int (length T) - start) (cs - ov) =
               Suc (window_count (int (length T) - ?s) (cs - ov))"
      using window_count_step[of "cs - ov" "int (length T) - start"] True assms
      by (simp add: algebra_simps)
    have w0: "window T cs ov start 0 = py_slice T start (start + cs)"
      by (simp add: window_def)
    have ws: "\<And>k. window T cs ov start (Suc k) = window T cs ov ?s k"
      by (simp add: window_def algebra_simps)
    have "split_loop T cs ov start chunks =
            split_loop T cs ov ?s (chunks @ [py_slice T start (start + cs)])"
      using True by (subst split_loop.simps) simp
    also have "\<dots> = Some ((chunks @ [py_slice T start (start + cs)]) @
                 map (window T cs ov ?s) [0..<window_count (int (length T) - ?s) (cs - ov)])"
      by (rule less[OF m])
    also have "\<dots> = Some (chunks @ map (window T cs ov start)
                 [0..<window_count (int (length T) - start) (cs - ov)])"
      unfolding c by (simp add: upt_conv_Cons map_Suc_upt[symmetric] w0 ws del: upt_Suc)
    finally show ?thesis .
  qed
qed


lemma window_count_less_iff:
  assumes "0 < step"
  shows "k < window_count remaining step \<longleftrightarrow> int k * step < remaining"
proof -
  have "k < window_count remaining step \<longleftrightarrow> int k < \<lceil>real_of_int remaining / real_of_int step\<rceil>"
    using assms by (simp add: window_count_ceiling zless_nat_eq_int_zless)
  also have "\<dots> \<longleftrightarrow> real_of_int (int k) < real_of_int remaining / real_of_int step"
    by (rule less_ceiling_iff)
  also have "\<dots> \<longleftrightarrow> real_of_int (int k) * real_of_int step < real_of_int remaining"
    using assms by (simp add: pos_less_divide_eq)
  also have "\<dots> \<longleftrightarrow> int k * step < remaining"
    by (metis of_int_less_iff of_int_mult)
  finally show ?thesis .
qed

lemma take_min_length: "take (min a (length ys)) ys = take a ys"
  by (cases "a \<le> length ys") (simp_all add: min_def)

lemma py_slice_nonneg:
  assumes "0 \<le> i" "0 \<le> c"
  shows "py_slice xs i (i + c) = take (nat c) (drop (nat i) xs)"
proof (cases "i < int (length xs)")
  case True
  then have "nat (min (i + c) (int (length xs)) - i) = min (nat c) (length xs - nat i)"
    using assms by (simp add: min_def) linarith
  moreover have "take (min (nat c) (length xs - nat i)) (drop (nat i) xs) = take (nat c) (drop (nat i) xs)"
    using take_min_length[of "nat c" "drop (nat i) xs"] by simp
  ultimately show ?thesis
    using assms True by (simp add: py_slice_def Let_def min_absorb1)
next
  case False
  then show ?thesis using assms by (simp add: py_slice_def Let_def)
qed

lemma window_take_drop:
  assumes "0 \<le> cs" "0 < cs - ov"
  shows "window T cs ov 0 k = take (nat cs) (drop (k * nat (cs - ov)) T)"
proof -
  have "nat (int k * (cs - ov)) = k * nat (cs - ov)"
    using assms by (simp add: nat_mult_distrib)
  then show ?thesis
    using assms py_slice_nonneg[of "int k * (cs - ov)" cs T] by (simp add: window_def)
qed

lemma concat_take_drop_windows:
  "concat (map (\<lambda>k. take s (drop (k * s) xs)) [0..<n]) = take (n * s) xs"
proof (induction n)
  case 0
  show ?case by simp
next
  case (Suc n)
  have "take (Suc n * s) xs = take (n * s + s) xs"
    by (simp add: add.commute)
  also have "\<dots> = take (n * s) xs @ take s (drop (n * s) xs)"
    by (rule take_add)
  finally show ?case using Suc by simp
qed

lemma split_text_windows_eq:
  assumes "0 < cs - ov"
  shows "split_text T cs ov =
           Some (map (window T cs ov 0) [0..<window_count (int (length T)) (cs - ov)])"
proof (cases "T = []")
  case True
  then show ?thesis using assms by (simp add: split_text_def window_count_nonpos)
next
  case False
  then show ?thesis
    using split_loop_windows[OF assms, of T 0 "[]"] by (simp add: split_text_def)
qed

text \<open>On a non-empty text, an overlap that is not below the chunk size makes the call run forever.\<close>

lemma split_text_diverges:
  assumes "T \<noteq> []" "cs \<le> ov"
  shows "split_text T cs ov = None"
  using assms split_loop_diverges[of cs ov 0 T "[]"] by (simp add: split_text_def)


subsection \<open>Claims about the segmenter\<close>

text \<open>
  Claim C3, as the code has it. For \<open>chunk_size > 0\<close> and \<open>0 \<le> overlap < chunk_size\<close> the
  segmenter returns exactly \<open>ceil(len(T) / (chunk_size - overlap))\<close> chunks, for every text
  \<open>T\<close> (none for the empty text): the loop runs while \<open>start < len(T)\<close>, so the overlap
  is not subtracted from the length. For \<open>len(T) = 2500\<close>, size 1000 and overlap 200 it
  returns four chunks, at offsets \<open>[0,1000)\<close>, \<open>[800,1800)\<close>, \<open>[1600,2500)\<close> and
  \<open>[2400,2500)\<close>.
\<close>

theorem split_text_chunk_count:
  "(0 < chunk_size \<and> 0 \<le> overlap \<and> overlap < chunk_size \<longrightarrow>
      (\<exists>chunks. split_text T chunk_size overlap = Some chunks \<and>
         length chunks = nat \<lceil>real (length T) / real_of_int (chunk_size - overlap)\<rceil>)) \<and>
   (length T = 2500 \<longrightarrow>
      split_text T 1000 200 =
        Some [take 1000 T, take 1000 (drop 800 T), drop 1600 T, drop 2400 T])"
proof (intro conjI impI)
  assume a: "0 < chunk_size \<and> 0 \<le> overlap \<and> overlap < chunk_size"
  then have s: "0 < chunk_size - overlap" by simp
  show "\<exists>chunks. split_text T chunk_size overlap = Some chunks \<and>
         length chunks = nat \<lceil>real (length T) / real_of_int (chunk_size - overlap)\<rceil>"
    using split_text_windows_eq[OF s, of T] window_count_ceiling[OF s, of "int (length T)"]
    by simp
next
  assume l: "length T = 2500"
  have s: "(0::int) < 1000 - 200" by simp
  have n: "window_count (int (length T)) (1000 - 200) = 4"
    using l by (simp add: window_count_def)
  have u: "[0..<4] = [0, Suc 0, 2, 3]"
    by (simp add: upt_conv_Cons)
  have w: "\<And>k. window T 1000 200 0 k = take 1000 (drop (k * 800) T)"
    using window_take_drop[of 1000 200 T] by simp
  show "split_text T 1000 200 =
        Some [take 1000 T, take 1000 (drop 800 T), drop 1600 T, drop 2400 T]"
    using split_text_windows_eq[OF s, of T] l unfolding n u by (simp add: w)
qed

text \<open>
  C3, witness: a text of 2500 characters, and the text \<open>abcdefg\<close> with size 4 and
  overlap 2.
\<close>

theorem split_text_chunk_count_witness:
  "split_text (replicate 2500 (CHR ''x'')) 1000 200 =
     Some [replicate 1000 (CHR ''x''), replicate 1000 (CHR ''x''),
           replicate 900 (CHR ''x''), replicate 100 (CHR ''x'')] \<and>
   (\<exists>chunks. split_text ''abcdefg'' 4 2 = Some chunks \<and> length chunks = 4)"
  using split_text_chunk_count[of 1000 200 "replicate 2500 (CHR ''x'')"]
        split_text_chunk_count[of 4 2 "''abcdefg''"]
  by simp

text \<open>
  C3, counterexample to the count \<open>ceil((len(T) - overlap) / (size - overlap))\<close>: for a
  text of length 7, size 4 and overlap 2 the segmenter returns 4 chunks where the formula
  gives 3, and for length 2500, size 1000 and overlap 200 the chunk lengths are not
  1000, 1000, 900.
\<close>

theorem split_text_chunk_count_counterexample:
  "split_text ''abcdefg'' 4 2 = Some [''abcd'', ''cdef'', ''efg'', ''g''] \<and>
   int (length [''abcd'', ''cdef'', ''efg'', ''g'']) \<noteq> \<lceil>(7 - 2) / (4 - 2) :: real\<rceil> \<and>
   map_option (map length) (split_text (replicate 2500 (CHR ''x'')) 1000 200) \<noteq> 
     Some [1000, 1000, 900]"
proof -
  have "split_text ''abcdefg'' 4 2 = Some [''abcd'', ''cdef'', ''efg'', ''g'']"
    by (simp add: split_text_def split_loop.simps py_slice_def)
  moreover have "split_text (replicate 2500 (CHR ''x'')) 1000 200 =
     Some [replicate 1000 (CHR ''x''), replicate 1000 (CHR ''x''),
           replicate 900 (CHR ''x''), replicate 100 (CHR ''x'')]"
    using split_text_windows_eq[of 1000 200 "replicate 2500 (CHR ''x'')"]
          window_take_drop[of 1000 200 "replicate 2500 (CHR ''x'')"]
    by (simp add: window_count_def upt_conv_Cons)
  ultimately show ?thesis by simp
qed


lemma split_text_nth_window:
  assumes "0 < cs - ov" "split_text T cs ov = Some chunks" "k < length chunks"
  shows "chunks ! k = py_slice T (int k * (cs - ov)) (int k * (cs - ov) + cs)"
    and "int k * (cs - ov) < int (length T)"
proof -
  have c: "chunks = map (window T cs ov 0) [0..<window_count (int (length T)) (cs - ov)]"
    using split_text_windows_eq[OF assms(1), of T] assms(2) by simp
  then have k: "k < window_count (int (length T)) (cs - ov)"
    using assms(3) by simp
  show "chunks ! k = py_slice T (int k * (cs - ov)) (int k * (cs - ov) + cs)"
    using c k by (simp add: window_def)
  show "int k * (cs - ov) < int (length T)"
    using k window_count_less_iff[OF assms(1)] by simp
qed

text \<open>
  Claim C4, as the code has it. For \<open>chunk_size > 0\<close> and \<open>0 \<le> overlap < chunk_size\<close> the
  segmenter terminates, and its chunks are the windows \<open>text[start:start+chunk_size]\<close>
  for \<open>start = 0, step, 2 step, \<dots>\<close> while \<open>start < len(text)\<close>, where
  \<open>step = chunk_size - overlap\<close>. The first \<open>step\<close> characters of the chunks, put end to
  end, are the text (the spans leave no gap). The tail of a chunk after its first \<open>step\<close>
  characters is the head of the next chunk, and it has exactly \<open>overlap\<close> characters
  whenever the earlier window lies inside the text. The empty text gives no chunk; a text
  of at most \<open>chunk_size - overlap\<close> characters gives exactly one chunk, the text; a text
  of at most \<open>chunk_size\<close> characters gives the text as its first chunk.
\<close>

theorem split_text_sliding_windows:
  assumes "0 < chunk_size" "0 \<le> overlap" "overlap < chunk_size"
  shows "\<exists>chunks. split_text T chunk_size overlap = Some chunks \<and>
     (\<forall>k < length chunks.
        int k * (chunk_size - overlap) < int (length T) \<and>
        chunks ! k = py_slice T (int k * (chunk_size - overlap))
                                (int k * (chunk_size - overlap) + chunk_size)) \<and>
     int (length T) \<le> int (length chunks) * (chunk_size - overlap) \<and>
     concat (map (take (nat (chunk_size - overlap))) chunks) = T \<and>
     (\<forall>k. Suc k < length chunks \<longrightarrow>
        drop (nat (chunk_size - overlap)) (chunks ! k) = take (nat overlap) (chunks ! Suc k) \<and>
        (int k * (chunk_size - overlap) + chunk_size \<le> int (length T) \<longrightarrow>
           length (drop (nat (chunk_size - overlap)) (chunks ! k)) = nat overlap)) \<and>
     (T = [] \<longrightarrow> chunks = []) \<and>
     (T \<noteq> [] \<and> int (length T) \<le> chunk_size - overlap \<longrightarrow> chunks = [T]) \<and>
     (T \<noteq> [] \<and> int (length T) \<le> chunk_size \<longrightarrow> hd chunks = T)"
proof -
  let ?step = "chunk_size - overlap"
  let ?n = "window_count (int (length T)) ?step"
  let ?chunks = "map (window T chunk_size overlap 0) [0..<?n]"
  have s: "0 < ?step" using assms by simp
  have cs0: "0 \<le> chunk_size" using assms by simp
  have eq: "split_text T chunk_size overlap = Some ?chunks"
    by (rule split_text_windows_eq[OF s])
  have w: "\<And>k. window T chunk_size overlap 0 k = take (nat chunk_size) (drop (k * nat ?step) T)"
    by (rule window_take_drop[OF cs0 s])
  have len: "length ?chunks = ?n" by simp
  have p1: "\<forall>k < length ?chunks.
        int k * ?step < int (length T) \<and>
        ?chunks ! k = py_slice T (int k * ?step) (int k * ?step + chunk_size)"
    using split_text_nth_window[OF s eq] by blast
  have p2: "int (length T) \<le> int (length ?chunks) * ?step"
    using window_count_less_iff[OF s, of ?n "int (length T)"] by simp
  have tk: "\<And>k. take (nat ?step) (window T chunk_size overlap 0 k) = take (nat ?step) (drop (k * nat ?step) T)"
    using assms by (simp add: w min_def)
  have "concat (map (take (nat ?step)) ?chunks) =
          concat (map (\<lambda>k. take (nat ?step) (drop (k * nat ?step) T)) [0..<?n])"
    by (simp add: map_map comp_def tk del: upt_Suc)
  also have "\<dots> = take (?n * nat ?step) T"
    by (rule concat_take_drop_windows)
  also have "\<dots> = T"
  proof -
    have ns: "int (nat ?step) = ?step"
      using s by simp
    have "int (?n * nat ?step) = int ?n * int (nat ?step)"
      by (rule of_nat_mult)
    then have "int (?n * nat ?step) = int ?n * ?step"
      by (simp only: ns)
    moreover have "int (length T) \<le> int ?n * ?step"
      using p2 by (simp only: len)
    ultimately have "int (length T) \<le> int (?n * nat ?step)"
      by linarith
    then have "length T \<le> ?n * nat ?step"
      by (simp only: of_nat_le_iff)
    then show ?thesis by simp
  qed
  finally have p3: "concat (map (take (nat ?step)) ?chunks) = T" .
  have p4: "\<forall>k. Suc k < length ?chunks \<longrightarrow>
        drop (nat ?step) (?chunks ! k) = take (nat overlap) (?chunks ! Suc k) \<and>
        (int k * ?step + chunk_size \<le> int (length T) \<longrightarrow>
           length (drop (nat ?step) (?chunks ! k)) = nat overlap)"
  proof (intro allI impI conjI)
    fix k assume k: "Suc k < length ?chunks"
    have so: "nat chunk_size - nat ?step = nat overlap"
      using assms by linarith
    have "drop (nat ?step) (?chunks ! k) = take (nat overlap) (drop (nat ?step + k * nat ?step) T)"
      using k by (simp add: w drop_take so add.commute del: upt_Suc)
    moreover have "take (nat overlap) (?chunks ! Suc k) = take (nat overlap) (drop (nat ?step + k * nat ?step) T)"
      using k assms by (simp add: w min_def del: upt_Suc)
    ultimately show "drop (nat ?step) (?chunks ! k) = take (nat overlap) (?chunks ! Suc k)"
      by simp
    assume full: "int k * ?step + chunk_size \<le> int (length T)"
    have "int (k * nat ?step) = int k * ?step" using s by simp
    then have "k * nat ?step + nat chunk_size \<le> length T"
      using full cs0 by linarith
    then have "length (?chunks ! k) = nat chunk_size"
      using k by (simp add: w del: upt_Suc)
    then show "length (drop (nat ?step) (?chunks ! k)) = nat overlap"
      using so by (simp only: length_drop)
  qed
  have p5: "T = [] \<longrightarrow> ?chunks = []"
    using s by (simp add: window_count_nonpos)
  have one: "T \<noteq> [] \<Longrightarrow> int (length T) \<le> ?step \<Longrightarrow> ?n = 1"
  proof -
    assume "T \<noteq> []" "int (length T) \<le> ?step"
    then have "0 < ?n" "\<not> 1 < ?n"
      using window_count_less_iff[OF s, of 0 "int (length T)"]
            window_count_less_iff[OF s, of 1 "int (length T)"] by auto
    then show "?n = 1" by linarith
  qed
  have pos: "T \<noteq> [] \<Longrightarrow> 0 < ?n"
    using window_count_less_iff[OF s, of 0 "int (length T)"] by simp
  have p6: "T \<noteq> [] \<and> int (length T) \<le> ?step \<longrightarrow> ?chunks = [T]"
  proof
    assume a: "T \<noteq> [] \<and> int (length T) \<le> ?step"
    then have "?n = 1" using one by simp
    moreover have "length T \<le> nat chunk_size"
      using a assms by linarith
    then have "window T chunk_size overlap 0 0 = T"
      by (simp add: w)
    ultimately show "?chunks = [T]" by simp
  qed
  have p7: "T \<noteq> [] \<and> int (length T) \<le> chunk_size \<longrightarrow> hd ?chunks = T"
  proof
    assume a: "T \<noteq> [] \<and> int (length T) \<le> chunk_size"
    then have "0 < ?n" using pos by simp
    then have "hd ?chunks = window T chunk_size overlap 0 0"
      by (simp add: hd_map upt_conv_Cons del: upt_Suc)
    also have "\<dots> = T"
    proof -
      have "length T \<le> nat chunk_size" using a by linarith
      then show ?thesis by (simp add: w)
    qed
    finally show "hd ?chunks = T" .
  qed
  show ?thesis
    by (rule exI[of _ ?chunks]) (rule conjI eq p1 p2 p3 p4 p5 p6 p7)+
qed


text \<open>
  C4, witness: the text \<open>abcdefg\<close> with size 4 and overlap 2.
\<close>

theorem split_text_sliding_windows_witness:
  "\<exists>chunks. split_text ''abcdefg'' 4 2 = Some chunks \<and>
      chunks ! 1 = py_slice ''abcdefg'' 2 6 \<and>
      concat (map (take 2) chunks) = ''abcdefg'' \<and>
      drop 2 (chunks ! 0) = take 2 (chunks ! 1) \<and>
      length (drop 2 (chunks ! 0)) = 2"
proof -
  have e: "split_text ''abcdefg'' 4 2 = Some [''abcd'', ''cdef'', ''efg'', ''g'']"
    by (simp add: split_text_def split_loop.simps py_slice_def)
  from split_text_sliding_windows[of 4 2 "''abcdefg''"]
  obtain chunks where c: "split_text ''abcdefg'' 4 2 = Some chunks"
    and t: "concat (map (take (nat (4 - 2))) chunks) = ''abcdefg''"
    by auto
  from c e have v: "chunks = [''abcd'', ''cdef'', ''efg'', ''g'']"
    by simp
  show ?thesis
    using c t unfolding v by (simp add: py_slice_def)
qed

text \<open>
  C4, counterexample: a text of 3 characters with size 4 and overlap 2 is shorter than
  the chunk size and yields two chunks; with size 10 and overlap 8 on 11 characters the
  second and third windows (of six) share 7 characters, not 8.
\<close>

theorem split_text_sliding_windows_counterexample:
  "split_text ''abc'' 4 2 \<noteq> Some [''abc''] \<and>
   split_text ''abc'' 4 2 = Some [''abc'', ''c''] \<and>
   split_text ''abcdefghijk'' 10 8 =
     Some [''abcdefghij'', ''cdefghijk'', ''efghijk'', ''ghijk'', ''ijk'', ''k''] \<and>
   length (drop (10 - 8) ''cdefghijk'') \<noteq> 8"
  by (simp add: split_text_def split_loop.simps py_slice_def)

text \<open>
  Claim C7, as the code has it. The segmenter validates nothing and raises nothing. For
  parameters outside \<open>chunk_size > 0\<close>, \<open>0 \<le> overlap < chunk_size\<close> it returns the empty
  list on the empty text, and on a non-empty text with \<open>overlap < chunk_size\<close> it
  terminates and returns \<open>ceil(len(T) / (chunk_size - overlap))\<close> chunks, at least one,
  the first being \<open>text[0:chunk_size]\<close>.
\<close>

theorem split_text_invalid_parameters:
  assumes "chunk_size \<le> 0 \<or> overlap < 0 \<or> chunk_size \<le> overlap"
    and "T = [] \<or> overlap < chunk_size"
  shows "\<exists>chunks. split_text T chunk_size overlap = Some chunks \<and>
           (T = [] \<longrightarrow> chunks = []) \<and>
           (T \<noteq> [] \<longrightarrow>
              length chunks = nat \<lceil>real (length T) / real_of_int (chunk_size - overlap)\<rceil> \<and>
              chunks \<noteq> [] \<and> hd chunks = py_slice T 0 chunk_size)"
proof (cases "T = []")
  case True
  then show ?thesis by (simp add: split_text_def)
next
  case False
  then have s: "0 < chunk_size - overlap" using assms(2) by simp
  let ?n = "window_count (int (length T)) (chunk_size - overlap)"
  have eq: "split_text T chunk_size overlap = Some (map (window T chunk_size overlap 0) [0..<?n])"
    by (rule split_text_windows_eq[OF s])
  have pos: "0 < ?n"
    using window_count_less_iff[OF s, of 0 "int (length T)"] False by simp
  then have "hd (map (window T chunk_size overlap 0) [0..<?n]) = window T chunk_size overlap 0 0"
    by (simp add: hd_map upt_conv_Cons del: upt_Suc)
  then have "hd (map (window T chunk_size overlap 0) [0..<?n]) = py_slice T 0 chunk_size"
    by (simp add: window_def)
  moreover have "?n = nat \<lceil>real (length T) / real_of_int (chunk_size - overlap)\<rceil>"
    using window_count_ceiling[OF s, of "int (length T)"] by simp
  ultimately show ?thesis
    using eq pos False by auto
qed

text \<open>
  C7, witness: a negative overlap.
\<close>

theorem split_text_invalid_parameters_witness:
  "\<exists>chunks. split_text ''abcde'' 3 (- 2) = Some chunks \<and> length chunks = 1 \<and>
      hd chunks = ''abc''"
proof -
  from split_text_invalid_parameters[of 3 "- 2" "''abcde''"]
  obtain chunks where "split_text ''abcde'' 3 (- 2) = Some chunks"
    and "length chunks = nat \<lceil>real (length ''abcde'') / real_of_int (3 - (- 2))\<rceil>"
    and "hd chunks = py_slice ''abcde'' 0 3"
    by auto
  then show ?thesis by (simp add: py_slice_def)
qed

text \<open>
  C7, counterexample: with a negative overlap, with a chunk size of zero, and with an
  overlap equal to the chunk size on the empty text, the call returns a list.
\<close>

theorem split_text_invalid_parameters_counterexample:
  "split_text ''abcde'' 3 (- 2) = Some [''abc''] \<and>
   split_text ''abcde'' 0 (- 3) = Some [[], []] \<and>
   split_text ([] :: string) 1 1 = Some []"
  by (simp add: split_text_def split_loop.simps py_slice_def)

section \<open>Vector services\<close>

subsection \<open>In-memory search\<close>

lemma py_slice_prefix: "py_slice xs 0 j = take (nat (if j < 0 then max 0 (int (length xs) + j) else min j (int (length xs)))) xs"
  by (simp add: py_slice_def Let_def)

lemma py_slice_length_le:
  "0 \<le> j \<Longrightarrow> int (length (py_slice xs 0 j)) \<le> j"
  by (simp add: py_slice_def Let_def)

lemma search_Some: "VectorService_search index query (Some ids) limit = concat (map (doc_results index limit) ids)"
  by (simp add: VectorService_search_def doc_results_def[abs_def])

lemma doc_results_document_id: "r \<in> set (doc_results index limit did) \<Longrightarrow> sr_document_id r = did \<and> sr_score r = 1"
  by (auto simp: doc_results_def result_of_chunk_def)

lemma doc_results_prefix: "prefix (doc_results index limit did) (map (result_of_chunk did) (dict_get index did []))"
  unfolding doc_results_def py_slice_prefix
  by (simp add: take_is_prefix take_map[symmetric])

lemma doc_results_length: "0 \<le> limit \<Longrightarrow> int (length (doc_results index limit did)) \<le> limit"
  by (simp add: doc_results_def py_slice_length_le)

lemma concat_doc_results_length:
  "0 \<le> limit \<Longrightarrow> int (length (concat (map (doc_results index limit) ids))) \<le> limit * int (length ids)"
proof (induction ids)
  case Nil
  show ?case by simp
next
  case (Cons d ds)
  have "int (length (doc_results index limit d)) \<le> limit"
    using Cons.prems by (rule doc_results_length)
  with Cons show ?case by (simp add: algebra_simps)
qed

lemma filter_doc_results_same: "filter (\<lambda>r. sr_document_id r = did) (doc_results index limit did) = doc_results index limit did"
  by (simp add: doc_results_def result_of_chunk_def filter_map comp_def)

lemma filter_doc_results_other: "d \<noteq> did \<Longrightarrow> filter (\<lambda>r. sr_document_id r = did) (doc_results index limit d) = []"
  by (simp add: doc_results_def result_of_chunk_def filter_map comp_def)

lemma filter_concat_doc_results_notin:
  "did \<notin> set ids \<Longrightarrow> filter (\<lambda>r. sr_document_id r = did) (concat (map (doc_results index limit) ids)) = []"
  by (induction ids) (auto simp: filter_doc_results_other)

lemma filter_concat_doc_results:
  "distinct ids \<Longrightarrow> did \<in> set ids \<Longrightarrow>
     filter (\<lambda>r. sr_document_id r = did) (concat (map (doc_results index limit) ids)) = doc_results index limit did"
proof (induction ids)
  case Nil
  then show ?case by simp
next
  case (Cons d ds)
  show ?case
  proof (cases "d = did")
    case True
    then have "did \<notin> set ds" using Cons.prems by simp
    then show ?thesis
      using True by (simp add: filter_doc_results_same filter_concat_doc_results_notin)
  next
    case False
    then show ?thesis
      using Cons by (simp add: filter_doc_results_other)
  qed
qed

lemma map_document_id_doc_results:
  "map sr_document_id (doc_results index limit did) = replicate (length (doc_results index limit did)) did"
  by (simp add: doc_results_def result_of_chunk_def comp_def map_replicate_const)

lemma map_document_id_concat:
  "map sr_document_id (concat (map (doc_results index limit) ids)) =
     concat (map2 replicate (map (\<lambda>d. length (doc_results index limit d)) ids) ids)"
  by (induction ids) (simp_all add: map_document_id_doc_results)

lemma doc_results_chunk:
  assumes "r \<in> set (doc_results index limit did)"
  shows "\<exists>chunk\<in>set (dict_get index did []). r = result_of_chunk did chunk"
proof -
  have "set (doc_results index limit did) \<subseteq>
          set (map (result_of_chunk did) (dict_get index did []))"
    by (rule set_mono_prefix[OF doc_results_prefix])
  then show ?thesis using assms by auto
qed

lemma py_slice_take: "0 \<le> j \<Longrightarrow> py_slice xs 0 j = take (nat j) xs"
  by (cases "j \<le> int (length xs)") (simp_all add: py_slice_def Let_def min_def)

text \<open>
  The limit is applied to each document of the filter list, not to the result: for a
  limit \<open>k \<ge> 0\<close> the search returns the first \<open>k\<close> chunks of every listed document. (The
  Chroma-backed \<^verbatim>\<open>search\<close> passes the limit as \<^verbatim>\<open>n_results\<close> of one query.)
\<close>

lemma VectorService_search_limit_per_document:
  assumes "0 \<le> limit"
  shows "VectorService_search index query (Some ids) limit =
           concat (map (\<lambda>did. map (result_of_chunk did) (take (nat limit) (dict_get index did [])))
                     ids)"
  using assms by (simp add: VectorService_search_def py_slice_take)

text \<open>
  Claim C2, as the in-memory service has it. For every index, filter list and limit:
  every result carries a document id of the filter list and is a chunk stored under that
  id; every score is 1.0, so the scores never increase along the results and never
  strictly decrease either; the results come in the order of the filter list, one
  segment for each entry of the list, and each segment is an initial segment of that
  document's chunks in insertion order; and for a limit \<open>k \<ge> 0\<close> and a filter list of at
  most one entry there are at most \<open>k\<close> results.
\<close>

theorem VectorService_search_filtered:
  assumes "results = VectorService_search index query (Some ids) limit"
  shows "(\<forall>r\<in>set results.
            sr_document_id r \<in> set ids \<and> sr_score r = 1 \<and>
            (\<exists>chunk\<in>set (dict_get index (sr_document_id r) []).
               r = result_of_chunk (sr_document_id r) chunk)) \<and>
         sorted_wrt (\<lambda>a b. sr_score b \<le> sr_score a) results \<and>
         (\<forall>a\<in>set results. \<forall>b\<in>set results. \<not> sr_score b < sr_score a) \<and>
         (\<exists>segments. length segments = length ids \<and> results = concat segments \<and>
            (\<forall>i<length ids.
               prefix (segments ! i)
                 (map (result_of_chunk (ids ! i)) (dict_get index (ids ! i) [])))) \<and>
         (0 \<le> limit \<and> length ids \<le> 1 \<longrightarrow> int (length results) \<le> limit)"
proof -
  have r: "results = concat (map (doc_results index limit) ids)"
    using assms by (simp add: search_Some)
  have p1: "\<forall>r\<in>set results.
            sr_document_id r \<in> set ids \<and> sr_score r = 1 \<and>
            (\<exists>chunk\<in>set (dict_get index (sr_document_id r) []).
               r = result_of_chunk (sr_document_id r) chunk)"
  proof
    fix x assume "x \<in> set results"
    then obtain did where d: "did \<in> set ids" and x: "x \<in> set (doc_results index limit did)"
      unfolding r by auto
    have i: "sr_document_id x = did" and s: "sr_score x = 1"
      using doc_results_document_id[OF x] by simp_all
    have "\<exists>chunk\<in>set (dict_get index did []). x = result_of_chunk did chunk"
      by (rule doc_results_chunk[OF x])
    then show "sr_document_id x \<in> set ids \<and> sr_score x = 1 \<and>
            (\<exists>chunk\<in>set (dict_get index (sr_document_id x) []).
               x = result_of_chunk (sr_document_id x) chunk)"
      using d s unfolding i by simp
  qed
  then have p2: "sorted_wrt (\<lambda>a b. sr_score b \<le> sr_score a) results"
    by (simp add: sorted_wrt_iff_nth_less)
  have p3: "\<forall>a\<in>set results. \<forall>b\<in>set results. \<not> sr_score b < sr_score a"
    using p1 by simp
  have p4: "\<exists>segments. length segments = length ids \<and> results = concat segments \<and>
            (\<forall>i<length ids.
               prefix (segments ! i)
                 (map (result_of_chunk (ids ! i)) (dict_get index (ids ! i) [])))"
    unfolding r
    by (rule exI[of _ "map (doc_results index limit) ids"]) (simp add: doc_results_prefix)
  have p5: "0 \<le> limit \<and> length ids \<le> 1 \<longrightarrow> int (length results) \<le> limit"
  proof
    assume a: "0 \<le> limit \<and> length ids \<le> 1"
    show "int (length results) \<le> limit"
    proof (cases ids)
      case Nil
      then show ?thesis using a unfolding r by simp
    next
      case (Cons d ds)
      then have "ds = []" using a by simp
      then show ?thesis
        using a Cons doc_results_length[of limit index d] unfolding r by simp
    qed
  qed
  show ?thesis
    by (rule conjI p1 p2 p3 p4 p5)+
qed

lemma example_index_eq:
  "example_index =
     [(''d1'', [\<lparr>vc_chunk_id = ''c1'', vc_content = ''first'', vc_embedding = [], vc_metadata = []\<rparr>,
               \<lparr>vc_chunk_id = ''c2'', vc_content = ''second'', vc_embedding = [], vc_metadata = []\<rparr>]),
      (''d2'', [\<lparr>vc_chunk_id = ''c3'', vc_content = ''third'', vc_embedding = [], vc_metadata = []\<rparr>])]"
  by (simp add: example_index_def VectorService_add_chunk_def setdefault_def)

text \<open>
  C2, counterexample: the two chunks of document \<open>d1\<close> are returned with the same score
  1.0, so the results are not strictly descending by score; and with the limit 1 and the
  filter \<open>[d2, d1]\<close> the search returns two results, the chunk inserted last first.
\<close>

theorem VectorService_search_filtered_counterexample:
  "map sr_chunk_id (VectorService_search example_index ''q'' (Some [''d1'']) 2) = [''c1'', ''c2''] \<and>
   map sr_score (VectorService_search example_index ''q'' (Some [''d1'']) 2) = [1, 1] \<and>
   \<not> sorted_wrt (\<lambda>a b. sr_score b < sr_score a)
       (VectorService_search example_index ''q'' (Some [''d1'']) 2) \<and>
   map sr_chunk_id (VectorService_search example_index ''q'' (Some [''d2'', ''d1'']) 1) = [''c3'', ''c1''] \<and>
   \<not> int (length (VectorService_search example_index ''q'' (Some [''d2'', ''d1'']) 1)) \<le> 1"
  by (simp add: example_index_eq VectorService_search_def dict_get_def py_slice_def result_of_chunk_def)

text \<open>
  C2, witness: the search for the first chunk of document \<open>d1\<close>.
\<close>

theorem VectorService_search_filtered_witness:
  "set (map sr_document_id (VectorService_search example_index ''q'' (Some [''d1'']) 1))
     \<subseteq> set [''d1''] \<and>
   set (map sr_score (VectorService_search example_index ''q'' (Some [''d1'']) 1)) \<subseteq> {1} \<and>
   int (length (VectorService_search example_index ''q'' (Some [''d1'']) 1)) \<le> 1 \<and>
   map sr_chunk_id (VectorService_search example_index ''q'' (Some [''d1'']) 1) = [''c1'']"
proof -
  note t = VectorService_search_filtered[OF refl, of example_index "''q''" "[''d1'']" 1]
  have a: "set (map sr_document_id (VectorService_search example_index ''q'' (Some [''d1'']) 1))
             \<subseteq> set [''d1'']"
    using t[THEN conjunct1] by auto
  have b: "set (map sr_score (VectorService_search example_index ''q'' (Some [''d1'']) 1)) \<subseteq> {1}"
    using t[THEN conjunct1] by auto
  have c: "int (length (VectorService_search example_index ''q'' (Some [''d1'']) 1)) \<le> 1"
    using t[THEN conjunct2, THEN conjunct2, THEN conjunct2, THEN conjunct2] by simp
  have d: "map sr_chunk_id (VectorService_search example_index ''q'' (Some [''d1'']) 1) = [''c1'']"
    by (simp add: example_index_eq VectorService_search_def dict_get_def py_slice_def
          result_of_chunk_def)
  show ?thesis by (rule conjI a b c d)+
qed

section \<open>Ingestion coordinator\<close>

subsection \<open>Dictionary lookups after an insertion\<close>

lemma in_keys_iff: "k \<in> fst ` set d \<longleftrightarrow> map_of d k \<noteq> None"
  by (simp add: map_of_eq_None_iff)

lemma dict_get_absent: "k \<notin> fst ` set d \<Longrightarrow> dict_get d k dflt = dflt"
  by (simp add: dict_get_def in_keys_iff)

lemma dict_get_setdefault:
  "dict_get (setdefault k v d) k' dflt = (if k' = k \<and> k \<notin> fst ` set d then v else dict_get d k' dflt)"
  by (auto simp: dict_get_def setdefault_def in_keys_iff split: option.splits)

lemma dict_get_map_entry:
  "dict_get (AList.map_entry k f d) k' dflt =
     (if k' = k \<and> k \<in> fst ` set d then f (dict_get d k dflt) else dict_get d k' dflt)"
  by (auto simp: dict_get_def map_of_map_entry in_keys_iff split: option.splits)

lemma fst_set_setdefault: "k \<in> fst ` set (setdefault k v d)"
  by (auto simp: setdefault_def)

lemma dict_get_add_chunk:
  "dict_get (VectorService_add_chunk index document_id chunk_id content embedding metadata) d [] =
     (if d = document_id
      then dict_get index document_id [] @
             [\<lparr>vc_chunk_id = chunk_id, vc_content = content, vc_embedding = embedding,
               vc_metadata = metadata\<rparr>]
      else dict_get index d [])"
proof -
  have "dict_get (setdefault document_id [] index) document_id [] = dict_get index document_id []"
    by (simp add: dict_get_setdefault dict_get_absent)
  then show ?thesis
    unfolding VectorService_add_chunk_def
    by (simp add: dict_get_map_entry fst_set_setdefault dict_get_setdefault)
qed

subsection \<open>The chunk loop over the in-memory index\<close>

lemma process_chunks_mem_success:
  assumes "\<forall>c\<in>set cs. \<not> isl (env_embed env c)"
  shows "\<exists>s'. process_chunks mem_add_chunk env did uid name (enumerate n cs) s = Inr s' \<and>
           documents s' = documents s \<and>
           indexed_contents s' did = indexed_contents s did @ cs \<and>
           stored_chunks s' did = stored_chunks s did @ enumerate n cs"
  using assms
proof (induction cs arbitrary: n s)
  case Nil
  show ?case by simp
next
  case (Cons c cs)
  from Cons.prems obtain v where v: "env_embed env c = Inr v"
    by (cases "env_embed env c") auto
  let ?s1 = "s\<lparr>uuids_drawn := Suc (uuids_drawn s)\<rparr>"
  let ?row = "\<lparr>chunk_row_id = env_uuid4 env (uuids_drawn s), chunk_document_id = did,
               chunk_content = c, chunk_index = n, chunk_created_at = clock s\<rparr>"
  let ?s2 = "?s1\<lparr>vector_service :=
                  VectorService_add_chunk (vector_service s) did (env_uuid4 env (uuids_drawn s)) c v
                    [(''document_name'', MStr name), (''chunk_index'', MInt (int n)),
                     (''user_id'', MStr uid)],
                document_chunks := document_chunks s @ [?row],
                clock := Suc (clock s)\<rparr>"
  have step: "process_chunks mem_add_chunk env did uid name (enumerate n (c # cs)) s =
                process_chunks mem_add_chunk env did uid name (enumerate (Suc n) cs) ?s2"
    by (simp add: v mem_add_chunk_def Let_def)
  from Cons.prems have "\<forall>c\<in>set cs. \<not> isl (env_embed env c)" by simp
  from Cons.IH[OF this, of "Suc n" ?s2]
  obtain s' where r: "process_chunks mem_add_chunk env did uid name (enumerate (Suc n) cs) ?s2 = Inr s'"
    and d: "documents s' = documents ?s2"
    and i: "indexed_contents s' did = indexed_contents ?s2 did @ cs"
    and t: "stored_chunks s' did = stored_chunks ?s2 did @ enumerate (Suc n) cs"
    by blast
  have i2: "indexed_contents ?s2 did = indexed_contents s did @ [c]"
    by (simp add: indexed_contents_def dict_get_add_chunk)
  have t2: "stored_chunks ?s2 did = stored_chunks s did @ [(n, c)]"
    by (simp add: stored_chunks_def)
  show ?case
    unfolding step using r d i t by (simp add: i2 t2)
qed

lemma process_chunks_mem_failure:
  assumes "j < length cs" "env_embed env (cs ! j) = Inl e"
    and "\<forall>k<j. \<not> isl (env_embed env (cs ! k))"
  shows "\<exists>s'. process_chunks mem_add_chunk env did uid name (enumerate n cs) s = Inl (e, s') \<and>
           documents s' = documents s \<and>
           indexed_contents s' did = indexed_contents s did @ take j cs \<and>
           stored_chunks s' did = stored_chunks s did @ take j (enumerate n cs)"
  using assms
proof (induction cs arbitrary: j n s)
  case Nil
  then show ?case by simp
next
  case (Cons c cs)
  show ?case
  proof (cases j)
    case 0
    then have "env_embed env c = Inl e" using Cons.prems by simp
    then show ?thesis
      using 0 by (simp add: Let_def indexed_contents_def stored_chunks_def)
  next
    case (Suc j')
    then have "\<not> isl (env_embed env c)" using Cons.prems(3) by auto
    then obtain v where v: "env_embed env c = Inr v"
      by (cases "env_embed env c") auto
    let ?s1 = "s\<lparr>uuids_drawn := Suc (uuids_drawn s)\<rparr>"
    let ?row = "\<lparr>chunk_row_id = env_uuid4 env (uuids_drawn s), chunk_document_id = did,
                 chunk_content = c, chunk_index = n, chunk_created_at = clock s\<rparr>"
    let ?s2 = "?s1\<lparr>vector_service :=
                    VectorService_add_chunk (vector_service s) did (env_uuid4 env (uuids_drawn s)) c v
                      [(''document_name'', MStr name), (''chunk_index'', MInt (int n)),
                       (''user_id'', MStr uid)],
                  document_chunks := document_chunks s @ [?row],
                  clock := Suc (clock s)\<rparr>"
    have step: "process_chunks mem_add_chunk env did uid name (enumerate n (c # cs)) s =
                  process_chunks mem_add_chunk env did uid name (enumerate (Suc n) cs) ?s2"
      by (simp add: v mem_add_chunk_def Let_def)
    have a: "j' < length cs" "env_embed env (cs ! j') = Inl e"
      and b: "\<forall>k<j'. \<not> isl (env_embed env (cs ! k))"
      using Cons.prems Suc by auto
    from Cons.IH[OF a b, of "Suc n" ?s2]
    obtain s' where r: "process_chunks mem_add_chunk env did uid name (enumerate (Suc n) cs) ?s2 = Inl (e, s')"
      and d: "documents s' = documents ?s2"
      and i: "indexed_contents s' did = indexed_contents ?s2 did @ take j' cs"
      and t: "stored_chunks s' did = stored_chunks ?s2 did @ take j' (enumerate (Suc n) cs)"
      by blast
    have i2: "indexed_contents ?s2 did = indexed_contents s did @ [c]"
      by (simp add: indexed_contents_def dict_get_add_chunk)
    have t2: "stored_chunks ?s2 did = stored_chunks s did @ [(n, c)]"
      by (simp add: stored_chunks_def)
    show ?thesis
      unfolding step using r d i t Suc by (simp add: i2 t2)
  qed
qed

subsection \<open>Updates of the documents table\<close>

lemma map_update_document:
  assumes "\<And>d. g (f d) = g d"
  shows "map g (update_document document_id f rows) = map g rows"
  using assms by (simp add: update_document_def)

lemma update_document_all:
  assumes "\<And>d. doc_id d = document_id \<Longrightarrow> P (f d)"
    and "d \<in> set (update_document document_id f rows)" "doc_id d = document_id"
    and "\<And>d. doc_id (f d) = doc_id d"
  shows "P d"
  using assms by (auto simp: update_document_def split: if_splits)

lemma fetch_update_document:
  assumes "\<And>d. doc_id (f d) = doc_id d \<and> doc_user_id (f d) = doc_user_id d"
  shows "fetch_document (update_document document_id' f rows) document_id user_id =
           map_option (\<lambda>d. if doc_id d = document_id' then f d else d)
             (fetch_document rows document_id user_id)"
  using assms by (induction rows) (auto simp: fetch_document_def update_document_def)

lemma fetch_document_id:
  "fetch_document rows did uid = Some document \<Longrightarrow> doc_id document = did \<and> doc_user_id document = uid"
  unfolding fetch_document_def by (induction rows) (auto split: if_splits)

subsection \<open>One processing attempt\<close>

lemma run_success:
  assumes f: "fetch_document (documents s) did uid = Some document"
    and sp: "split_text (extract_text (env_files env) (doc_filepath document)) 1000 200 = Some chunks"
    and r: "process_chunks mem_add_chunk env did uid (doc_filename document) (enumerate 0 chunks)
              (s\<lparr>documents :=
                 update_document did (\<lambda>d. d\<lparr>doc_processing_started := Some (clock s)\<rparr>) (documents s),
               clock := Suc (clock s)\<rparr>) = Inr s2"
  shows "RAGService_process_document mem_add_chunk env s did uid =
           Some (s2\<lparr>documents :=
                  update_document did
                    (\<lambda>d. d\<lparr>doc_processed := True, doc_chunks_count := length chunks,
                            doc_processed_at := Some (clock s2)\<rparr>) (documents s2),
                clock := Suc (clock s2)\<rparr>)"
  apply (simp only: RAGService_process_document_def f option.case Let_def)
  apply (subst sp)
  apply (simp only: option.case r sum.case)
  done

lemma run_failure:
  assumes f: "fetch_document (documents s) did uid = Some document"
    and sp: "split_text (extract_text (env_files env) (doc_filepath document)) 1000 200 = Some chunks"
    and r: "process_chunks mem_add_chunk env did uid (doc_filename document) (enumerate 0 chunks)
              (s\<lparr>documents :=
                 update_document did (\<lambda>d. d\<lparr>doc_processing_started := Some (clock s)\<rparr>) (documents s),
               clock := Suc (clock s)\<rparr>) = Inl (e, s2)"
  shows "RAGService_process_document mem_add_chunk env s did uid = Some (record_error s2 did e)"
  apply (simp only: RAGService_process_document_def f option.case Let_def)
  apply (subst sp)
  apply (simp only: option.case r sum.case prod.case)
  done

lemma process_document_success:
  assumes f: "fetch_document (documents s) did uid = Some document"
    and sp: "split_text (extract_text (env_files env) (doc_filepath document)) 1000 200 = Some chunks"
    and ok: "\<forall>c\<in>set chunks. \<not> isl (env_embed env c)"
  shows "\<exists>s' document'.
           RAGService_process_document mem_add_chunk env s did uid = Some s' \<and>
           fetch_document (documents s') did uid = Some document' \<and>
           doc_filepath document' = doc_filepath document \<and>
           (\<forall>d\<in>set (documents s'). doc_id d = did \<longrightarrow>
               doc_processed d \<and> doc_chunks_count d = length chunks) \<and>
           indexed_contents s' did = indexed_contents s did @ chunks \<and>
           stored_chunks s' did = stored_chunks s did @ enumerate 0 chunks"
proof -
  let ?s1 = "s\<lparr>documents :=
                 update_document did (\<lambda>d. d\<lparr>doc_processing_started := Some (clock s)\<rparr>) (documents s),
               clock := Suc (clock s)\<rparr>"
  from process_chunks_mem_success[OF ok, of did uid "doc_filename document" 0 ?s1]
  obtain s2 where r: "process_chunks mem_add_chunk env did uid (doc_filename document)
                        (enumerate 0 chunks) ?s1 = Inr s2"
    and d: "documents s2 = documents ?s1"
    and i: "indexed_contents s2 did = indexed_contents ?s1 did @ chunks"
    and t: "stored_chunks s2 did = stored_chunks ?s1 did @ enumerate 0 chunks"
    by blast
  let ?s3 = "s2\<lparr>documents :=
                  update_document did
                    (\<lambda>d. d\<lparr>doc_processed := True, doc_chunks_count := length chunks,
                            doc_processed_at := Some (clock s2)\<rparr>) (documents s2),
                clock := Suc (clock s2)\<rparr>"
  have run: "RAGService_process_document mem_add_chunk env s did uid = Some ?s3"
    by (rule run_success[OF f sp r])
  have did: "doc_id document = did"
    using fetch_document_id[OF f] by simp
  let ?document' = "document\<lparr>doc_processing_started := Some (clock s), doc_processed := True,
                     doc_chunks_count := length chunks, doc_processed_at := Some (clock s2)\<rparr>"
  have "fetch_document (documents s2) did uid = Some (document\<lparr>doc_processing_started := Some (clock s)\<rparr>)"
    unfolding d by (simp add: fetch_update_document f did)
  then have fe: "fetch_document (documents ?s3) did uid = Some ?document'"
    by (simp add: fetch_update_document did)
  have al: "\<forall>d\<in>set (documents ?s3). doc_id d = did \<longrightarrow>
               doc_processed d \<and> doc_chunks_count d = length chunks"
  proof (intro ballI impI)
    fix d assume "d \<in> set (documents ?s3)" "doc_id d = did"
    then have m: "d \<in> set (update_document did
                    (\<lambda>d. d\<lparr>doc_processed := True, doc_chunks_count := length chunks,
                            doc_processed_at := Some (clock s2)\<rparr>) (documents s2))"
      by simp
    show "doc_processed d \<and> doc_chunks_count d = length chunks"
      by (rule update_document_all[OF _ m \<open>doc_id d = did\<close>]) simp_all
  qed
  have i3: "indexed_contents ?s3 did = indexed_contents s did @ chunks"
    using i by (simp add: indexed_contents_def)
  have t3: "stored_chunks ?s3 did = stored_chunks s did @ enumerate 0 chunks"
    using t by (simp add: stored_chunks_def)
  have fp: "doc_filepath ?document' = doc_filepath document" by simp
  show ?thesis
    by (rule exI[of _ ?s3], rule exI[of _ ?document']) (rule conjI run fe fp al i3 t3)+
qed

subsection \<open>Failure of the embedding provider\<close>

lemma split_text_1500:
  "split_text (replicate 1500 (CHR ''a'')) 1000 200 =
     Some [replicate 1000 (CHR ''a''), replicate 700 (CHR ''a'')]"
  using split_text_windows_eq[of 1000 200 "replicate 1500 (CHR ''a'')"]
        window_take_drop[of 1000 200 "replicate 1500 (CHR ''a'')"]
  by (simp add: window_count_def upt_conv_Cons)

lemma split_text_hello: "split_text ''hello'' 1000 200 = Some [''hello'']"
  by (simp add: split_text_def split_loop.simps py_slice_def)

text \<open>
  Claim C1, as the code has it. If the embedding provider raises for chunk \<open>j\<close> of the
  document (and for no earlier chunk), the attempt ends with the exception's message
  recorded in \<open>processing_error\<close>; there is no status column, and the flag \<open>processed\<close>
  and \<open>chunks_count\<close> are left as they were; the \<open>j\<close> index entries and the \<open>j\<close> chunk
  rows inserted before the failure remain: nothing is rolled back.
\<close>

theorem process_document_embedding_failure:
  assumes f: "fetch_document (documents s) did uid = Some document"
    and sp: "split_text (extract_text (env_files env) (doc_filepath document)) 1000 200 = Some chunks"
    and j: "j < length chunks" "env_embed env (chunks ! j) = Inl e"
    and before: "\<forall>k<j. \<not> isl (env_embed env (chunks ! k))"
  shows "\<exists>s'. RAGService_process_document mem_add_chunk env s did uid = Some s' \<and>
           (\<forall>d\<in>set (documents s'). doc_id d = did \<longrightarrow> doc_processing_error d = Some e) \<and>
           map doc_processed (documents s') = map doc_processed (documents s) \<and>
           map doc_chunks_count (documents s') = map doc_chunks_count (documents s) \<and>
           indexed_contents s' did = indexed_contents s did @ take j chunks \<and>
           stored_chunks s' did = stored_chunks s did @ take j (enumerate 0 chunks)"
proof -
  let ?s1 = "s\<lparr>documents :=
                 update_document did (\<lambda>d. d\<lparr>doc_processing_started := Some (clock s)\<rparr>) (documents s),
               clock := Suc (clock s)\<rparr>"
  from process_chunks_mem_failure[OF j before, of did uid "doc_filename document" 0 ?s1]
  obtain s2 where r: "process_chunks mem_add_chunk env did uid (doc_filename document)
                        (enumerate 0 chunks) ?s1 = Inl (e, s2)"
    and d: "documents s2 = documents ?s1"
    and i: "indexed_contents s2 did = indexed_contents ?s1 did @ take j chunks"
    and t: "stored_chunks s2 did = stored_chunks ?s1 did @ take j (enumerate 0 chunks)"
    by blast
  let ?s3 = "record_error s2 did e"
  have run: "RAGService_process_document mem_add_chunk env s did uid = Some ?s3"
    by (rule run_failure[OF f sp r])
  have ds: "documents ?s3 =
              update_document did (\<lambda>d. d\<lparr>doc_processing_error := Some e\<rparr>)
                (update_document did (\<lambda>d. d\<lparr>doc_processing_started := Some (clock s)\<rparr>)
                   (documents s))"
    by (simp add: record_error_def d)
  have er: "\<forall>d\<in>set (documents ?s3). doc_id d = did \<longrightarrow> doc_processing_error d = Some e"
  proof (intro ballI impI)
    fix d assume m: "d \<in> set (documents ?s3)" and "doc_id d = did"
    show "doc_processing_error d = Some e"
      by (rule update_document_all[OF _ m[unfolded ds] \<open>doc_id d = did\<close>]) simp_all
  qed
  have pr: "map doc_processed (documents ?s3) = map doc_processed (documents s)"
    unfolding ds by (simp add: map_update_document)
  have cc: "map doc_chunks_count (documents ?s3) = map doc_chunks_count (documents s)"
    unfolding ds by (simp add: map_update_document)
  have i3: "indexed_contents ?s3 did = indexed_contents s did @ take j chunks"
    using i by (simp add: indexed_contents_def record_error_def)
  have t3: "stored_chunks ?s3 did = stored_chunks s did @ take j (enumerate 0 chunks)"
    using t by (simp add: stored_chunks_def record_error_def)
  show ?thesis
    by (rule exI[of _ ?s3]) (rule conjI run er pr cc i3 t3)+
qed

lemma example_fetch_a:
  "fetch_document (documents (example_state ''d1'' ''/docs/a.txt'')) ''d1'' ''u1'' =
     Some (example_document ''d1'' ''/docs/a.txt'')"
  by (simp add: example_state_def example_document_def fetch_document_def)

lemma example_split_a:
  "split_text (extract_text (env_files example_env)
                 (doc_filepath (example_document ''d1'' ''/docs/a.txt''))) 1000 200 =
     Some [replicate 1000 (CHR ''a''), replicate 700 (CHR ''a'')]"
  by (simp add: example_env_def example_document_def extract_text_def split_text_1500)

lemma example_failed_attempt:
  "RAGService_process_document mem_add_chunk example_env
     (example_state ''d1'' ''/docs/a.txt'') ''d1'' ''u1'' =
   Some \<lparr>documents = [\<lparr>doc_id = ''d1'', doc_user_id = ''u1'', doc_filename = ''notes'',
                         doc_filepath = ''/docs/a.txt'', doc_processed = False,
                         doc_chunks_count = 0, doc_processing_started = Some 0,
                         doc_processed_at = None,
                         doc_processing_error = Some ''embedding provider down''\<rparr>],
         document_chunks = [\<lparr>chunk_row_id = ''u'', chunk_document_id = ''d1'',
                              chunk_content = replicate 1000 (CHR ''a''), chunk_index = 0,
                              chunk_created_at = 1\<rparr>],
         vector_service = [(''d1'', [\<lparr>vc_chunk_id = ''u'',
                              vc_content = replicate 1000 (CHR ''a''), vc_embedding = [],
                              vc_metadata = [(''document_name'', MStr ''notes''),
                                (''chunk_index'', MInt 0), (''user_id'', MStr ''u1'')]\<rparr>])],
         uuids_drawn = 2, clock = 2\<rparr>"
proof -
  have "RAGService_process_document mem_add_chunk example_env
          (example_state ''d1'' ''/docs/a.txt'') ''d1'' ''u1'' =
        Some (record_error
          (\<lparr>documents = [example_document ''d1'' ''/docs/a.txt''
                           \<lparr>doc_processing_started := Some 0\<rparr>],
            document_chunks = [\<lparr>chunk_row_id = ''u'', chunk_document_id = ''d1'',
                                 chunk_content = replicate 1000 (CHR ''a''), chunk_index = 0,
                                 chunk_created_at = 1\<rparr>],
            vector_service = [(''d1'', [\<lparr>vc_chunk_id = ''u'',
                                 vc_content = replicate 1000 (CHR ''a''), vc_embedding = [],
                                 vc_metadata = [(''document_name'', MStr ''notes''),
                                   (''chunk_index'', MInt 0), (''user_id'', MStr ''u1'')]\<rparr>])],
            uuids_drawn = 2, clock = 2\<rparr>) ''d1'' ''embedding provider down'')"
    apply (rule run_failure[OF example_fetch_a example_split_a])
    apply (simp add: example_state_def example_document_def example_env_def
             mem_add_chunk_def VectorService_add_chunk_def setdefault_def update_document_def Let_def)
    done
  then show ?thesis
    by (simp add: record_error_def update_document_def example_document_def)
qed

text \<open>
  C1, witness: a document of 1500 characters, whose second chunk (700 characters) the
  provider rejects.
\<close>

theorem process_document_embedding_failure_witness:
  "\<exists>s'. RAGService_process_document mem_add_chunk example_env
           (example_state ''d1'' ''/docs/a.txt'') ''d1'' ''u1'' = Some s' \<and>
        map doc_processing_error (documents s') = [Some ''embedding provider down''] \<and>
        map doc_processed (documents s') = [False] \<and>
        indexed_contents s' ''d1'' = [replicate 1000 (CHR ''a'')] \<and>
        stored_chunks s' ''d1'' = [(0, replicate 1000 (CHR ''a''))]"
proof -
  have j: "1 < length [replicate 1000 (CHR ''a''), replicate 700 (CHR ''a'')]"
    "env_embed example_env ([replicate 1000 (CHR ''a''), replicate 700 (CHR ''a'')] ! 1) =
       Inl ''embedding provider down''"
    by (simp_all add: example_env_def)
  have b: "\<forall>k<1. \<not> isl (env_embed example_env
                            ([replicate 1000 (CHR ''a''), replicate 700 (CHR ''a'')] ! k))"
    by (simp add: example_env_def)
  from process_document_embedding_failure[OF example_fetch_a example_split_a j b]
  obtain s' where
    r: "RAGService_process_document mem_add_chunk example_env
          (example_state ''d1'' ''/docs/a.txt'') ''d1'' ''u1'' = Some s'"
    and i: "indexed_contents s' ''d1'' =
              indexed_contents (example_state ''d1'' ''/docs/a.txt'') ''d1'' @
              take 1 [replicate 1000 (CHR ''a''), replicate 700 (CHR ''a'')]"
    and t: "stored_chunks s' ''d1'' =
              stored_chunks (example_state ''d1'' ''/docs/a.txt'') ''d1'' @
              take 1 (enumerate 0 [replicate 1000 (CHR ''a''), replicate 700 (CHR ''a'')])"
    by blast
  have d: "map doc_processing_error (documents s') = [Some ''embedding provider down'']"
    "map doc_processed (documents s') = [False]"
    using r[unfolded example_failed_attempt] by auto
  show ?thesis
    using r d i t
    by (simp add: indexed_contents_def stored_chunks_def example_state_def dict_get_def)
qed

text \<open>
  C1, counterexample: after the failed attempt on that document one index entry and one
  chunk row of the attempt remain.
\<close>

theorem process_document_embedding_failure_counterexample:
  "RAGService_process_document mem_add_chunk example_env
     (example_state ''d1'' ''/docs/a.txt'') ''d1'' ''u1'' =
   Some \<lparr>documents = [\<lparr>doc_id = ''d1'', doc_user_id = ''u1'', doc_filename = ''notes'',
                         doc_filepath = ''/docs/a.txt'', doc_processed = False,
                         doc_chunks_count = 0, doc_processing_started = Some 0,
                         doc_processed_at = None,
                         doc_processing_error = Some ''embedding provider down''\<rparr>],
         document_chunks = [\<lparr>chunk_row_id = ''u'', chunk_document_id = ''d1'',
                              chunk_content = replicate 1000 (CHR ''a''), chunk_index = 0,
                              chunk_created_at = 1\<rparr>],
         vector_service = [(''d1'', [\<lparr>vc_chunk_id = ''u'',
                              vc_content = replicate 1000 (CHR ''a''), vc_embedding = [],
                              vc_metadata = [(''document_name'', MStr ''notes''),
                                (''chunk_index'', MInt 0), (''user_id'', MStr ''u1'')]\<rparr>])],
         uuids_drawn = 2, clock = 2\<rparr> \<and>
   env_embed example_env (replicate 700 (CHR ''a'')) = Inl ''embedding provider down''"
  by (rule conjI, rule example_failed_attempt) (simp add: example_env_def)

subsection \<open>Reprocessing\<close>

text \<open>
  Claim C5, as the code has it. Processing a document whose file is unchanged twice, with
  every embedding succeeding, sets \<open>chunks_count\<close> to the same number both times and
  inserts chunks with the same contents and indices both times, but clears nothing
  first: after the second run the index holds the document's chunks twice and so does
  the chunk table.
\<close>

theorem reprocess_document_accumulates:
  assumes f: "fetch_document (documents s) did uid = Some document"
    and sp: "split_text (extract_text (env_files env) (doc_filepath document)) 1000 200 = Some chunks"
    and ok: "\<forall>c\<in>set chunks. \<not> isl (env_embed env c)"
  shows "\<exists>s1 s2.
           RAGService_process_document mem_add_chunk env s did uid = Some s1 \<and>
           RAGService_process_document mem_add_chunk env s1 did uid = Some s2 \<and>
           (\<forall>d\<in>set (documents s1). doc_id d = did \<longrightarrow>
               doc_processed d \<and> doc_chunks_count d = length chunks) \<and>
           (\<forall>d\<in>set (documents s2). doc_id d = did \<longrightarrow>
               doc_processed d \<and> doc_chunks_count d = length chunks) \<and>
           indexed_contents s1 did = indexed_contents s did @ chunks \<and>
           indexed_contents s2 did = indexed_contents s did @ chunks @ chunks \<and>
           stored_chunks s1 did = stored_chunks s did @ enumerate 0 chunks \<and>
           stored_chunks s2 did = stored_chunks s did @ enumerate 0 chunks @ enumerate 0 chunks"
proof -
  from process_document_success[OF f sp ok]
  obtain s1 document1 where
    r1: "RAGService_process_document mem_add_chunk env s did uid = Some s1"
    and f1: "fetch_document (documents s1) did uid = Some document1"
    and p1: "doc_filepath document1 = doc_filepath document"
    and a1: "\<forall>d\<in>set (documents s1). doc_id d = did \<longrightarrow>
               doc_processed d \<and> doc_chunks_count d = length chunks"
    and i1: "indexed_contents s1 did = indexed_contents s did @ chunks"
    and t1: "stored_chunks s1 did = stored_chunks s did @ enumerate 0 chunks"
    by blast
  have sp1: "split_text (extract_text (env_files env) (doc_filepath document1)) 1000 200 = Some chunks"
    using sp by (simp only: p1)
  from process_document_success[OF f1 sp1 ok]
  obtain s2 where
    r2: "RAGService_process_document mem_add_chunk env s1 did uid = Some s2"
    and a2: "\<forall>d\<in>set (documents s2). doc_id d = did \<longrightarrow>
               doc_processed d \<and> doc_chunks_count d = length chunks"
    and i2: "indexed_contents s2 did = indexed_contents s1 did @ chunks"
    and t2: "stored_chunks s2 did = stored_chunks s1 did @ enumerate 0 chunks"
    by blast
  have i2': "indexed_contents s2 did = indexed_contents s did @ chunks @ chunks"
    using i1 i2 by simp
  have t2': "stored_chunks s2 did = stored_chunks s did @ enumerate 0 chunks @ enumerate 0 chunks"
    using t1 t2 by simp
  show ?thesis
    by (rule exI[of _ s1], rule exI[of _ s2]) (rule conjI r1 r2 a1 a2 i1 i2' t1 t2')+
qed

lemma example_fetch_b:
  "fetch_document (documents (example_state ''d2'' ''/docs/b.txt'')) ''d2'' ''u1'' =
     Some (example_document ''d2'' ''/docs/b.txt'')"
  by (simp add: example_state_def example_document_def fetch_document_def)

lemma example_split_b:
  "split_text (extract_text (env_files example_env)
                 (doc_filepath (example_document ''d2'' ''/docs/b.txt''))) 1000 200 =
     Some [''hello'']"
  by (simp add: example_env_def example_document_def extract_text_def split_text_hello)

text \<open>
  C5, witness: a document with the text \<open>hello\<close>, processed twice.
\<close>

theorem reprocess_document_accumulates_witness:
  "\<exists>s1 s2.
     RAGService_process_document mem_add_chunk example_env
       (example_state ''d2'' ''/docs/b.txt'') ''d2'' ''u1'' = Some s1 \<and>
     RAGService_process_document mem_add_chunk example_env s1 ''d2'' ''u1'' = Some s2 \<and>
     indexed_contents s1 ''d2'' = [''hello''] \<and>
     indexed_contents s2 ''d2'' = [''hello'', ''hello''] \<and>
     stored_chunks s1 ''d2'' = [(0, ''hello'')] \<and>
     stored_chunks s2 ''d2'' = [(0, ''hello''), (0, ''hello'')]"
proof -
  have ok: "\<forall>c\<in>set [''hello'']. \<not> isl (env_embed example_env c)"
    by (simp add: example_env_def)
  have i0: "indexed_contents (example_state ''d2'' ''/docs/b.txt'') ''d2'' = []"
    by (simp add: indexed_contents_def example_state_def dict_get_def)
  have t0: "stored_chunks (example_state ''d2'' ''/docs/b.txt'') ''d2'' = []"
    by (simp add: stored_chunks_def example_state_def)
  from reprocess_document_accumulates[OF example_fetch_b example_split_b ok]
  show ?thesis
    unfolding i0 t0 by (simp add: enumerate_simps) blast
qed

lemmas example_eval =
  RAGService_process_document_def fetch_document_def extract_text_def split_text_hello
  example_env_def example_state_def example_document_def mem_add_chunk_def
  VectorService_add_chunk_def setdefault_def update_document_def Let_def

text \<open>
  C5, counterexample: the same document has one index entry and one chunk row after the
  first run, two of each after the second.
\<close>

theorem reprocess_document_accumulates_counterexample:
  "RAGService_process_document mem_add_chunk example_env
     (example_state ''d2'' ''/docs/b.txt'') ''d2'' ''u1'' = Some example_processed_once \<and>
   RAGService_process_document mem_add_chunk example_env example_processed_once ''d2'' ''u1'' =
     Some example_processed_twice \<and>
   length (dict_get (vector_service example_processed_once) ''d2'' []) = 1 \<and>
   length (dict_get (vector_service example_processed_twice) ''d2'' []) = 2 \<and>
   length (document_chunks example_processed_once) = 1 \<and>
   length (document_chunks example_processed_twice) = 2"
proof -
  have a: "RAGService_process_document mem_add_chunk example_env
             (example_state ''d2'' ''/docs/b.txt'') ''d2'' ''u1'' = Some example_processed_once"
    by (simp add: example_eval example_processed_once_def)
  have b: "RAGService_process_document mem_add_chunk example_env example_processed_once
             ''d2'' ''u1'' = Some example_processed_twice"
    by (simp add: example_eval example_processed_once_def example_processed_twice_def)
  show ?thesis
    using a b by (simp add: example_processed_once_def example_processed_twice_def dict_get_def)
qed

subsection \<open>Deleting a document of another user\<close>

lemma no_row_of_other_owner:
  assumes "d \<in> set rows" "doc_id d = did" "doc_user_id d \<noteq> uid" "distinct (map doc_id rows)"
  shows "filter (\<lambda>x. doc_id x = did \<and> doc_user_id x = uid) rows = []"
proof -
  have "inj_on doc_id (set rows)"
    using assms(4) by (simp add: distinct_map)
  then have "\<And>x. x \<in> set rows \<Longrightarrow> doc_id x = did \<Longrightarrow> x = d"
    using assms(1,2) by (auto dest: inj_onD)
  then show ?thesis
    using assms(3) by (auto simp: filter_empty_conv)
qed

lemma dict_get_delete_document:
  "dict_get (VectorService_delete_document index did) did [] = []"
  by (simp add: VectorService_delete_document_def dict_get_def dict_get_absent
        AList.delete_eq map_of_eq_None_iff[THEN iffD2] image_iff split: option.splits)

lemma no_entry_after_chroma_delete:
  "filter (where_matches (Some (WhereDocumentIdEq did)))
     (ChromaVectorService_delete_document collection did) = []"
  by (simp add: ChromaVectorService_delete_document_def collection_delete_def filter_empty_conv)

text \<open>
  Claim C9. If the document exists and belongs to another user (document ids being
  unique), \<open>delete_document\<close> returns \<open>False\<close> and leaves the \<open>documents\<close> table as it
  was, yet it has applied the vector service's \<open>delete_document\<close> and deleted every
  chunk row of the document; after either vector service's \<open>delete_document\<close> no entry of
  the document is left.
\<close>

theorem delete_document_foreign_owner:
  assumes "d \<in> set (documents s)" "doc_id d = did" "doc_user_id d \<noteq> uid"
    and "distinct (map doc_id (documents s))"
  shows "RAGService_delete_document vs_delete_document s did uid =
           (s\<lparr>vector_service := vs_delete_document (vector_service s) did,
              document_chunks := filter (\<lambda>r. chunk_document_id r \<noteq> did) (document_chunks s)\<rparr>,
            False) \<and>
         documents (fst (RAGService_delete_document vs_delete_document s did uid)) = documents s \<and>
         stored_chunks (fst (RAGService_delete_document vs_delete_document s did uid)) did = [] \<and>
         dict_get (VectorService_delete_document index did) did [] = [] \<and>
         filter (where_matches (Some (WhereDocumentIdEq did)))
           (ChromaVectorService_delete_document collection did) = []"
proof -
  have n: "filter (\<lambda>x. doc_id x = did \<and> doc_user_id x = uid) (documents s) = []"
    by (rule no_row_of_other_owner[OF assms])
  then have k: "filter (\<lambda>x. doc_id x = did \<longrightarrow> doc_user_id x \<noteq> uid) (documents s) = documents s"
    by (simp add: filter_empty_conv filter_id_conv)
  have r: "RAGService_delete_document vs_delete_document s did uid =
           (s\<lparr>vector_service := vs_delete_document (vector_service s) did,
              document_chunks := filter (\<lambda>r. chunk_document_id r \<noteq> did) (document_chunks s)\<rparr>,
            False)"
    by (simp add: RAGService_delete_document_def Let_def n k)
  show ?thesis
    unfolding r
    by (simp add: stored_chunks_def dict_get_delete_document no_entry_after_chroma_delete)
qed

text \<open>
  C9, witness: user \<open>u2\<close> deletes the processed document \<open>d2\<close> of user \<open>u1\<close>.
\<close>

theorem delete_document_foreign_owner_witness:
  "RAGService_delete_document VectorService_delete_document example_processed_once ''d2'' ''u2'' =
     (example_processed_once\<lparr>vector_service := [], document_chunks := []\<rparr>, False) \<and>
   indexed_contents example_processed_once ''d2'' = [''hello''] \<and>
   stored_chunks example_processed_once ''d2'' = [(0, ''hello'')] \<and>
   map doc_user_id (documents example_processed_once) = [''u1'']"
proof -
  have d: "\<lparr>doc_id = ''d2'', doc_user_id = ''u1'', doc_filename = ''notes'',
             doc_filepath = ''/docs/b.txt'', doc_processed = True, doc_chunks_count = 1,
             doc_processing_started = Some 0, doc_processed_at = Some 2,
             doc_processing_error = None\<rparr> \<in> set (documents example_processed_once)"
    by (simp add: example_processed_once_def)
  have i: "distinct (map doc_id (documents example_processed_once))"
    by (simp add: example_processed_once_def)
  from delete_document_foreign_owner[OF d _ _ i, of "''d2''" "''u2''" VectorService_delete_document]
  have "RAGService_delete_document VectorService_delete_document example_processed_once ''d2'' ''u2'' =
          (example_processed_once
             \<lparr>vector_service := VectorService_delete_document (vector_service example_processed_once) ''d2'',
              document_chunks := filter (\<lambda>r. chunk_document_id r \<noteq> ''d2'')
                                   (document_chunks example_processed_once)\<rparr>, False)"
    by simp
  then show ?thesis
    by (simp add: example_processed_once_def VectorService_delete_document_def
          indexed_contents_def stored_chunks_def dict_get_def)
qed

subsection \<open>Searching without documents\<close>

lemma chroma_search_empty_list:
  "ChromaVectorService_search engine_embed collection_query query (Some []) limit =
     ChromaVectorService_search engine_embed collection_query query None limit"
  by (cases "engine_embed query") (simp_all add: ChromaVectorService_search_def)

lemma chroma_search_unfiltered:
  assumes "engine_embed query = Inr query_embedding"
    and "collection_query query_embedding limit None = Inr hits"
  shows "ChromaVectorService_search engine_embed collection_query query None limit =
           map format_hit hits"
  using assms by (simp add: ChromaVectorService_search_def)

lemma chroma_search_without_engine:
  "ChromaVectorService_search AIService_engine_embed collection_query query document_ids limit = []"
  by (simp add: ChromaVectorService_search_def AIService_engine_embed_def)

lemma search_empty_list: "VectorService_search index query (Some []) limit = []"
  by (simp add: VectorService_search_def)

lemma search_documents_passes_empty_list:
  assumes "\<forall>d\<in>set (documents s). doc_user_id d = uid \<longrightarrow> \<not> doc_processed d"
  shows "RAGService_search_documents vs_search s query uid limit =
           vs_search (vector_service s) query (Some []) limit"
proof -
  have "filter (\<lambda>d. doc_user_id d = uid \<and> doc_processed d) (documents s) = []"
    using assms by (auto simp: filter_empty_conv)
  then show ?thesis
    by (simp add: RAGService_search_documents_def)
qed

text \<open>
  Claim C10, as the code has it. For a user without processed documents
  \<open>search_documents\<close> passes the empty list to the \<open>search\<close> of its vector service. The
  Chroma-backed \<open>search\<close> treats the empty list as no filter: the call is the call
  without a list, and when the query embeds and the collection's unfiltered \<open>query\<close>
  returns hits, those hits are the result, whatever documents they belong to. This does
  not reach the user in the repository: with the \<^verbatim>\<open>ai_service\<close> of
  \<^verbatim>\<open>src/core/ai_engine.py\<close>, which has no \<^verbatim>\<open>engine\<close>, the Chroma-backed \<open>search\<close>
  returns nothing for any call; and the in-memory \<open>search\<close>, the one \<open>RAGService\<close>
  constructs, returns nothing for the empty list, so \<open>search_documents\<close> over the same
  tables and any in-memory index returns nothing.
\<close>

theorem search_documents_without_documents:
  assumes "\<forall>d\<in>set (documents s). doc_user_id d = uid \<longrightarrow> \<not> doc_processed d"
  shows "RAGService_search_documents vs_search s query uid limit =
           vs_search (vector_service s) query (Some []) limit \<and>
         ChromaVectorService_search engine_embed collection_query query (Some []) limit =
           ChromaVectorService_search engine_embed collection_query query None limit \<and>
         (engine_embed query = Inr query_embedding \<and>
          collection_query query_embedding limit None = Inr hits \<longrightarrow>
            ChromaVectorService_search engine_embed collection_query query (Some []) limit =
              map format_hit hits) \<and>
         ChromaVectorService_search AIService_engine_embed collection_query query document_ids
           limit = [] \<and>
         VectorService_search index query (Some []) limit = [] \<and>
         RAGService_search_documents VectorService_search
           \<lparr>documents = documents s, document_chunks = document_chunks s,
            vector_service = index, uuids_drawn = uuids_drawn s, clock = clock s\<rparr>
           query uid limit = []"
proof -
  have a: "RAGService_search_documents vs_search s query uid limit =
           vs_search (vector_service s) query (Some []) limit"
    by (rule search_documents_passes_empty_list[OF assms])
  have b: "ChromaVectorService_search engine_embed collection_query query (Some []) limit =
           ChromaVectorService_search engine_embed collection_query query None limit"
    by (rule chroma_search_empty_list)
  have c: "engine_embed query = Inr query_embedding \<and>
          collection_query query_embedding limit None = Inr hits \<longrightarrow>
            ChromaVectorService_search engine_embed collection_query query (Some []) limit =
              map format_hit hits"
    unfolding b by (simp add: chroma_search_unfiltered)
  have d: "ChromaVectorService_search AIService_engine_embed collection_query query document_ids
           limit = []"
    by (rule chroma_search_without_engine)
  have e: "VectorService_search index query (Some []) limit = []"
    by (rule search_empty_list)
  let ?m = "\<lparr>documents = documents s, document_chunks = document_chunks s,
            vector_service = index, uuids_drawn = uuids_drawn s, clock = clock s\<rparr>"
  have "\<forall>d\<in>set (documents ?m). doc_user_id d = uid \<longrightarrow> \<not> doc_processed d"
    using assms by simp
  then have "RAGService_search_documents VectorService_search ?m query uid limit =
               VectorService_search (vector_service ?m) query (Some []) limit"
    by (rule search_documents_passes_empty_list)
  then have f: "RAGService_search_documents VectorService_search ?m query uid limit = []"
    by (simp add: search_empty_list)
  show ?thesis
    by (rule conjI a b c d e f)+
qed

lemma example_unfiltered_query:
  "example_collection_query [] 10 None = Inr (map (\<lambda>e. (e, 0)) example_collection)"
  by (simp add: example_collection_query_def where_matches_def example_collection_def)

text \<open>
  C10, counterexample: the index holds a chunk of user \<open>u1\<close> and the unfiltered search
  finds it, but \<open>search_documents\<close> of user \<open>u2\<close>, who owns nothing, returns no result;
  and the Chroma-backed \<open>search\<close> with the \<^verbatim>\<open>ai_service\<close> of the repository returns no
  result for the empty list although the collection's unfiltered \<open>query\<close> has a hit.
\<close>

theorem search_documents_without_documents_counterexample:
  "RAGService_search_documents VectorService_search example_processed_once ''hello'' ''u2'' 10 = [] \<and>
   map sr_content (VectorService_search (vector_service example_processed_once) ''hello'' None 10) =
     [''hello''] \<and>
   map doc_user_id (documents example_processed_once) = [''u1''] \<and>
   ChromaVectorService_search AIService_engine_embed example_collection_query ''salary'' (Some [])
     10 = [] \<and>
   map_sum id (map (ce_id \<circ> fst)) (example_collection_query [] 10 None) = Inr [''c1'']"
  by (simp add: RAGService_search_documents_def VectorService_search_def example_processed_once_def
        dict_get_def py_slice_def result_of_chunk_def chroma_search_without_engine
        example_unfiltered_query example_collection_def)

text \<open>
  C10, witness: user \<open>u2\<close> owns nothing, so the empty list is passed on; a Chroma-backed
  \<open>search\<close> whose engine embeds the query answers the empty list with the chunk of
  user \<open>u1\<close>.
\<close>

theorem search_documents_without_documents_witness:
  "RAGService_search_documents VectorService_search example_processed_once ''salary'' ''u2'' 10 =
     VectorService_search (vector_service example_processed_once) ''salary'' (Some []) 10 \<and>
   map cr_chunk_id
     (ChromaVectorService_search (\<lambda>q. Inr []) example_collection_query ''salary'' (Some []) 10) =
     [''c1''] \<and>
   map cr_document_id
     (ChromaVectorService_search (\<lambda>q. Inr []) example_collection_query ''salary'' (Some []) 10) =
     [Some (MStr ''d1'')]"
proof -
  have a: "\<forall>d\<in>set (documents example_processed_once). doc_user_id d = ''u2'' \<longrightarrow> \<not> doc_processed d"
    by (simp add: example_processed_once_def)
  note t = search_documents_without_documents[OF a,
      where vs_search = VectorService_search and query = "''salary''" and limit = 10
        and engine_embed = "\<lambda>q. Inr []" and collection_query = example_collection_query
        and query_embedding = "[]" and hits = "map (\<lambda>e. (e, 0)) example_collection"]
  have p: "(\<lambda>q::string. (Inr [] :: string + real list)) ''salary'' = Inr [] \<and>
           example_collection_query [] 10 None = Inr (map (\<lambda>e. (e, 0)) example_collection)"
    by (simp add: example_unfiltered_query)
  have t1: "RAGService_search_documents VectorService_search example_processed_once ''salary'' ''u2'' 10 =
     VectorService_search (vector_service example_processed_once) ''salary'' (Some []) 10"
    using t by (rule conjunct1)
  have t3: "ChromaVectorService_search (\<lambda>q. Inr []) example_collection_query ''salary'' (Some []) 10 =
              map format_hit (map (\<lambda>e. (e, 0)) example_collection)"
    using t[THEN conjunct2, THEN conjunct2, THEN conjunct1] p by (rule mp)
  have t4: "map cr_chunk_id
     (ChromaVectorService_search (\<lambda>q. Inr []) example_collection_query ''salary'' (Some []) 10) =
     [''c1'']"
    unfolding t3 by (simp add: example_collection_def format_hit_def)
  have t5: "map cr_document_id
     (ChromaVectorService_search (\<lambda>q. Inr []) example_collection_query ''salary'' (Some []) 10) =
     [Some (MStr ''d1'')]"
    unfolding t3 by (simp add: example_collection_def format_hit_def)
  show ?thesis by (rule conjI t1 t4 t5)+
qed

section \<open>Streaming and synchronous completion\<close>

lemma delta_content_delta_object: "delta_content (delta_object c) = Some c"
  by (simp add: delta_content_def delta_object_def dict_get_def)

lemma accumulate_delta_frame:
  assumes "loads (dumps (delta_object c) @ ''\<newline>\<newline>'') = Some (delta_object c)"
  shows "accumulate loads buffer (''data: '' @ dumps (delta_object c) @ ''\<newline>\<newline>'') = buffer @ c"
  using assms by (simp add: accumulate_def delta_content_delta_object)

lemma accumulate_done_frame:
  assumes "loads ''[DONE]\<newline>\<newline>'' = None"
  shows "accumulate loads buffer ''data: [DONE]\<newline>\<newline>'' = buffer"
  using assms by (simp add: accumulate_def)

lemma foldl_accumulate_frames:
  assumes "\<forall>c. loads (dumps (delta_object c) @ ''\<newline>\<newline>'') = Some (delta_object c)"
  shows "foldl (accumulate loads) buffer
           (map (\<lambda>chunk. ''data: '' @ dumps (delta_object chunk) @ ''\<newline>\<newline>'') chunks) =
         buffer @ concat chunks"
proof (induction chunks arbitrary: buffer)
  case Nil
  show ?case by simp
next
  case (Cons c chunks)
  have "accumulate loads buffer (''data: '' @ dumps (delta_object c) @ ''\<newline>\<newline>'') = buffer @ c"
    using assms by (intro accumulate_delta_frame) simp
  then show ?case
    using Cons.IH[of "buffer @ c"] by simp
qed

text \<open>
  Under the contract of the \<^verbatim>\<open>json\<close> library (a printed delta object followed by two
  newlines parses to the object; \<^verbatim>\<open>[DONE]\<close> does not parse) the buffer of
  \<^verbatim>\<open>stream_completion\<close> over the Ollama-backed service is the concatenation of what
  \<^verbatim>\<open>stream_generate\<close> yields, error text included.
\<close>

lemma ollama_stream_completion_buffer:
  assumes "\<forall>c. loads (dumps (delta_object c) @ ''\<newline>\<newline>'') = Some (delta_object c)"
    and "loads ''[DONE]\<newline>\<newline>'' = None"
  shows "snd (ChatService_stream_completion loads
                (OllamaAIService_stream_chat_completion dumps client) messages kwargs) =
           concat (OllamaEngine_stream_generate client (OllamaAIService_format_messages messages)
                     kwargs)"
proof -
  let ?chunks = "OllamaEngine_stream_generate client (OllamaAIService_format_messages messages) kwargs"
  have "foldl (accumulate loads) []
          (map (\<lambda>chunk. ''data: '' @ dumps (delta_object chunk) @ ''\<newline>\<newline>'') ?chunks @
           [''data: [DONE]\<newline>\<newline>'']) =
        accumulate loads (concat ?chunks) ''data: [DONE]\<newline>\<newline>''"
    using foldl_accumulate_frames[OF assms(1), where buffer = "[]" and chunks = ?chunks] by simp
  also have "\<dots> = concat ?chunks"
    using assms(2) by (rule accumulate_done_frame)
  finally show ?thesis
    by (simp add: ChatService_stream_completion_def OllamaAIService_stream_chat_completion_def
          Let_def)
qed

lemma mock_stream_completion_buffer:
  assumes "\<forall>c. loads (dumps (delta_object c) @ ''\<newline>\<newline>'') = Some (delta_object c)"
  shows "snd (ChatService_stream_completion loads (AIService_stream_chat_completion dumps)
                messages kwargs) = ''This is a streamed mocked response.''"
proof -
  have "foldl (accumulate loads) []
          (map (\<lambda>chunk. ''data: '' @ dumps (delta_object chunk) @ ''\<newline>\<newline>'')
             [''This is '', ''a streamed '', ''mocked response.'']) =
        [] @ concat [''This is '', ''a streamed '', ''mocked response.'']"
    by (rule foldl_accumulate_frames[OF assms])
  then show ?thesis
    by (simp add: ChatService_stream_completion_def AIService_stream_chat_completion_def Let_def)
qed

text \<open>
  Claim C6, as the code has it. Let the \<^verbatim>\<open>json\<close> library keep its contract. Over the
  Ollama-backed \<^verbatim>\<open>AIService\<close>: if for the request built from the messages the backend's
  \<^verbatim>\<open>generate\<close> returns a text and its streaming call yields, without raising, chunks
  whose \<^verbatim>\<open>response\<close> fields concatenate to that text, then the synchronous completion
  returns a message with that text as content and the streaming completion accumulates
  the same text. Over the \<^verbatim>\<open>AIService\<close> of \<^verbatim>\<open>src/core/ai_engine.py\<close>, the one
  \<^verbatim>\<open>ChatService\<close> imports, the synchronous completion returns one fixed sentence and the
  streaming completion accumulates another, whatever the messages.
\<close>

theorem stream_accumulates_synchronous_content:
  assumes "\<forall>c. loads (dumps (delta_object c) @ ''\<newline>\<newline>'') = Some (delta_object c)"
    and "loads ''[DONE]\<newline>\<newline>'' = None"
  shows "(client_generate client (engine_request (OllamaAIService_format_messages messages) kwargs) =
            Inr response \<and>
          client_stream client (engine_request (OllamaAIService_format_messages messages) kwargs) =
            (chunks, None) \<and>
          concat (List.map_filter id chunks) = response \<longrightarrow>
            (\<exists>completion.
               ChatService_create_completion (OllamaAIService_chat_completion client) messages kwargs =
                 Inr completion \<and>
               cc_content completion = response \<and>
               snd (ChatService_stream_completion loads
                      (OllamaAIService_stream_chat_completion dumps client) messages kwargs) =
                 cc_content completion)) \<and>
         (\<exists>completion.
            ChatService_create_completion AIService_chat_completion messages kwargs =
              Inr completion \<and>
            cc_content completion = ''This is a mocked chat completion response.'' \<and>
            snd (ChatService_stream_completion loads (AIService_stream_chat_completion dumps)
                   messages kwargs) = ''This is a streamed mocked response.'')"
proof -
  let ?rq = "engine_request (OllamaAIService_format_messages messages) kwargs"
  have a: "client_generate client ?rq = Inr response \<and>
          client_stream client ?rq = (chunks, None) \<and>
          concat (List.map_filter id chunks) = response \<longrightarrow>
            (\<exists>completion.
               ChatService_create_completion (OllamaAIService_chat_completion client) messages kwargs =
                 Inr completion \<and>
               cc_content completion = response \<and>
               snd (ChatService_stream_completion loads
                      (OllamaAIService_stream_chat_completion dumps client) messages kwargs) =
                 cc_content completion)"
  proof
    assume h: "client_generate client ?rq = Inr response \<and>
          client_stream client ?rq = (chunks, None) \<and>
          concat (List.map_filter id chunks) = response"
    let ?completion = "\<lparr>cc_model = kw_model kwargs, cc_role = Some ''assistant'',
                         cc_content = response, cc_finish_reason = Some ''stop''\<rparr>"
    have c: "ChatService_create_completion (OllamaAIService_chat_completion client) messages kwargs =
               Inr ?completion"
      using h by (simp add: ChatService_create_completion_def OllamaAIService_chat_completion_def
            OllamaEngine_generate_def)
    have "OllamaEngine_stream_generate client (OllamaAIService_format_messages messages) kwargs =
            List.map_filter id chunks"
      using h by (simp add: OllamaEngine_stream_generate_def)
    then have s: "snd (ChatService_stream_completion loads
                      (OllamaAIService_stream_chat_completion dumps client) messages kwargs) =
                  response"
      using h unfolding ollama_stream_completion_buffer[OF assms] by simp
    show "\<exists>completion.
               ChatService_create_completion (OllamaAIService_chat_completion client) messages kwargs =
                 Inr completion \<and>
               cc_content completion = response \<and>
               snd (ChatService_stream_completion loads
                      (OllamaAIService_stream_chat_completion dumps client) messages kwargs) =
                 cc_content completion"
      by (rule exI[of _ ?completion]) (simp add: c s)
  qed
  let ?mock = "\<lparr>cc_model = kw_model kwargs, cc_role = None,
                 cc_content = ''This is a mocked chat completion response.'',
                 cc_finish_reason = None\<rparr>"
  have m: "ChatService_create_completion AIService_chat_completion messages kwargs = Inr ?mock"
    by (simp add: ChatService_create_completion_def AIService_chat_completion_def)
  have b: "\<exists>completion.
            ChatService_create_completion AIService_chat_completion messages kwargs =
              Inr completion \<and>
            cc_content completion = ''This is a mocked chat completion response.'' \<and>
            snd (ChatService_stream_completion loads (AIService_stream_chat_completion dumps)
                   messages kwargs) = ''This is a streamed mocked response.''"
    by (rule exI[of _ ?mock]) (simp add: m mock_stream_completion_buffer[OF assms(1)])
  show ?thesis
    by (rule conjI a b)+
qed

lemma example_codec_round_trip:
  "\<forall>c. example_loads (example_dumps (delta_object c) @ ''\<newline>\<newline>'') = Some (delta_object c)"
  by (simp add: example_loads_def example_dumps_def delta_content_delta_object)

lemma example_codec_done: "example_loads ''[DONE]\<newline>\<newline>'' = None"
  by (simp add: example_loads_def)

text \<open>
  C6, counterexample: with the \<^verbatim>\<open>AIService\<close> that \<^verbatim>\<open>ChatService\<close> imports, the text
  accumulated from the stream differs from the content of the synchronous completion.
\<close>

theorem stream_accumulates_synchronous_content_counterexample:
  "ChatService_create_completion AIService_chat_completion example_messages example_kwargs =
     Inr \<lparr>cc_model = None, cc_role = None,
          cc_content = ''This is a mocked chat completion response.'',
          cc_finish_reason = None\<rparr> \<and>
   snd (ChatService_stream_completion example_loads (AIService_stream_chat_completion example_dumps)
          example_messages example_kwargs) = ''This is a streamed mocked response.'' \<and>
   ''This is a streamed mocked response.'' \<noteq> ''This is a mocked chat completion response.''"
  by (simp add: ChatService_create_completion_def AIService_chat_completion_def example_kwargs_def
        mock_stream_completion_buffer[OF example_codec_round_trip])

text \<open>
  C6, witness: a backend that returns \<^verbatim>\<open>Hello, world\<close> and streams it in three chunks.
\<close>

theorem stream_accumulates_synchronous_content_witness:
  "map_sum id cc_content
     (ChatService_create_completion (OllamaAIService_chat_completion example_client)
        example_messages example_kwargs) = Inr ''Hello, world'' \<and>
   snd (ChatService_stream_completion example_loads
          (OllamaAIService_stream_chat_completion example_dumps example_client)
          example_messages example_kwargs) = ''Hello, world''"
proof -
  let ?rq = "engine_request (OllamaAIService_format_messages example_messages) example_kwargs"
  have h: "client_generate example_client ?rq = Inr ''Hello, world'' \<and>
           client_stream example_client ?rq =
             ([None, Some ''Hel'', Some ''lo, '', Some ''world''], None) \<and>
           concat (List.map_filter id [None, Some ''Hel'', Some ''lo, '', Some ''world'']) =
             ''Hello, world''"
    by (simp add: example_client_def List.map_filter_def)
  from stream_accumulates_synchronous_content[OF example_codec_round_trip example_codec_done,
      THEN conjunct1, THEN mp, OF h]
  obtain completion where
    c: "ChatService_create_completion (OllamaAIService_chat_completion example_client)
          example_messages example_kwargs = Inr completion"
    and t: "cc_content completion = ''Hello, world''"
    and s: "snd (ChatService_stream_completion example_loads
          (OllamaAIService_stream_chat_completion example_dumps example_client)
          example_messages example_kwargs) = cc_content completion"
    by blast
  show ?thesis
    using c s t by simp
qed

section \<open>History listing\<close>

subsection \<open>The grouping loop\<close>

lemma first_seen_snoc:
  "first_seen (xs @ [x]) = (if x \<in> set xs then first_seen xs else first_seen xs @ [x])"
  by (simp add: first_seen_def)

lemma set_first_seen: "set (first_seen xs) = set xs"
  by (simp add: first_seen_def)

lemma distinct_first_seen: "distinct (first_seen xs)"
  by (simp add: first_seen_def)

lemma map_entry_map_keys:
  assumes "distinct ks"
  shows "AList.map_entry k f (map (\<lambda>k'. (k', g k')) ks) =
           map (\<lambda>k'. (k', if k' = k then f (g k') else g k')) ks"
  using assms by (induction ks) auto

lemma map_entry_absent: "k \<notin> fst ` set d \<Longrightarrow> AList.map_entry k f d = d"
  by (induction d) auto

lemma map_entry_append_absent:
  "k \<notin> fst ` set d \<Longrightarrow> AList.map_entry k f (d @ [(k, v)]) = d @ [(k, f v)]"
  by (induction d) auto

lemma conversation_of_snoc_other:
  "h_conversation_id r \<noteq> k \<Longrightarrow> conversation_of (rows @ [r]) k = conversation_of rows k"
  by (simp add: conversation_of_def rows_of_def)

lemma conversation_of_snoc_same_old:
  assumes "k \<in> h_conversation_id ` set rows" "h_conversation_id r = k"
  shows "conversation_of (rows @ [r]) k =
           (conversation_of rows k)\<lparr>cv_messages := cv_messages (conversation_of rows k) @ [message_of_row r]\<rparr>"
proof -
  have "rows_of rows k \<noteq> []"
    using assms(1) by (auto simp: rows_of_def filter_empty_conv)
  then show ?thesis
    using assms(2) by (simp add: conversation_of_def rows_of_def)
qed

lemma conversation_of_snoc_same_new:
  assumes "k \<notin> h_conversation_id ` set rows" "h_conversation_id r = k"
  shows "conversation_of (rows @ [r]) k =
           \<lparr>cv_conversation_id = k, cv_messages = [message_of_row r], cv_created_at = h_created_at r\<rparr>"
proof -
  have "rows_of rows k = []"
    using assms(1) by (auto simp: rows_of_def filter_empty_conv)
  then show ?thesis
    using assms(2) by (simp add: conversation_of_def rows_of_def)
qed

lemma foldl_add_row:
  "foldl add_row [] rows =
     map (\<lambda>k. (k, conversation_of rows k)) (first_seen (map h_conversation_id rows))"
proof (induction rows rule: rev_induct)
  case Nil
  show ?case by (simp add: first_seen_def)
next
  case (snoc r rows)
  let ?k = "h_conversation_id r"
  let ?F = "first_seen (map h_conversation_id rows)"
  let ?old = "map (\<lambda>k. (k, conversation_of rows k)) ?F"
  have keys: "fst ` set ?old = h_conversation_id ` set rows"
    by (simp add: image_comp comp_def set_first_seen)
  have step: "foldl add_row [] (rows @ [r]) = add_row ?old r"
    using snoc by simp
  show ?case
  proof (cases "?k \<in> h_conversation_id ` set rows")
    case True
    have "add_row ?old r =
            AList.map_entry ?k (\<lambda>c. c\<lparr>cv_messages := cv_messages c @ [message_of_row r]\<rparr>) ?old"
      using True keys by (simp add: add_row_def Let_def)
    also have "\<dots> = map (\<lambda>k'. (k', if k' = ?k
                  then (conversation_of rows k')\<lparr>cv_messages := cv_messages (conversation_of rows k') @ [message_of_row r]\<rparr>
                  else conversation_of rows k')) ?F"
      by (rule map_entry_map_keys[OF distinct_first_seen])
    also have "\<dots> = map (\<lambda>k'. (k', conversation_of (rows @ [r]) k')) ?F"
      using True
      by (intro map_cong refl) (simp add: conversation_of_snoc_other conversation_of_snoc_same_old)
    finally show ?thesis
      using True unfolding step by (simp add: first_seen_snoc)
  next
    case False
    let ?new = "\<lparr>cv_conversation_id = ?k, cv_messages = [], cv_created_at = h_created_at r\<rparr>"
    have nk: "?k \<notin> fst ` set ?old" using False keys by simp
    have "add_row ?old r =
            AList.map_entry ?k (\<lambda>c. c\<lparr>cv_messages := cv_messages c @ [message_of_row r]\<rparr>)
              (?old @ [(?k, ?new)])"
      using False keys by (simp add: add_row_def Let_def)
    also have "\<dots> = ?old @ [(?k, ?new\<lparr>cv_messages := cv_messages ?new @ [message_of_row r]\<rparr>)]"
      by (rule map_entry_append_absent[OF nk])
    also have "\<dots> = ?old @ [(?k, conversation_of (rows @ [r]) ?k)]"
      using False by (simp add: conversation_of_snoc_same_new)
    finally have a: "add_row ?old r = ?old @ [(?k, conversation_of (rows @ [r]) ?k)]" .
    have o: "?old = map (\<lambda>k'. (k', conversation_of (rows @ [r]) k')) ?F"
    proof (intro map_cong refl)
      fix k' assume "k' \<in> set ?F"
      then have "k' \<in> h_conversation_id ` set rows"
        by (simp add: set_first_seen)
      then have "k' \<noteq> ?k" using False by blast
      then show "(k', conversation_of rows k') = (k', conversation_of (rows @ [r]) k')"
        by (simp add: conversation_of_snoc_other)
    qed
    have "foldl add_row [] (rows @ [r]) =
            map (\<lambda>k'. (k', conversation_of (rows @ [r]) k')) ?F @
            [(?k, conversation_of (rows @ [r]) ?k)]"
      unfolding step a using o by simp
    then show ?thesis
      using False by (simp add: first_seen_snoc)
  qed
qed

lemma group_rows_eq:
  "group_rows rows = map (conversation_of rows) (first_seen (map h_conversation_id rows))"
  by (simp add: group_rows_def foldl_add_row comp_def)

subsection \<open>Order of the listing\<close>

lemma newest_first_fetch: "newest_first (fetch_history chat_history user_id limit offset)"
proof -
  let ?rows = "sort_key (\<lambda>r. - h_created_at r) (filter (\<lambda>r. h_user_id r = user_id) chat_history)"
  have "sorted (map (\<lambda>r. - h_created_at r) ?rows)"
    by (rule sorted_sort_key)
  then have s: "sorted_wrt (\<lambda>a b. h_created_at b \<le> h_created_at a) ?rows"
    by (simp add: sorted_map)
  then have "sorted_wrt (\<lambda>a b. h_created_at b \<le> h_created_at a) (drop (nat offset) ?rows)"
    by (rule sorted_wrt_drop)
  then show ?thesis
    unfolding newest_first_def fetch_history_def sql_limit_def Let_def
    by (simp add: sorted_wrt_take)
qed

lemma rows_of_nonempty:
  "k \<in> h_conversation_id ` set rows \<Longrightarrow> rows_of rows k \<noteq> []"
  by (auto simp: rows_of_def filter_empty_conv)

lemma hd_rows_of_in_rows:
  assumes "k \<in> h_conversation_id ` set rows"
  shows "hd (rows_of rows k) \<in> set rows"
proof -
  have "hd (rows_of rows k) \<in> set (rows_of rows k)"
    using rows_of_nonempty[OF assms] by (rule hd_in_set)
  then show ?thesis by (simp add: rows_of_def)
qed

lemma created_at_snoc_old:
  assumes "k \<in> h_conversation_id ` set rows"
  shows "cv_created_at (conversation_of (rows @ [r]) k) = cv_created_at (conversation_of rows k)"
  using rows_of_nonempty[OF assms] by (simp add: conversation_of_def rows_of_def)

lemma conversations_newest_first:
  assumes "newest_first rows"
  shows "sorted_wrt (\<lambda>a b. b \<le> a) (map cv_created_at (group_rows rows))"
  using assms
proof (induction rows rule: rev_induct)
  case Nil
  show ?case by (simp add: group_rows_eq first_seen_def)
next
  case (snoc r rows)
  let ?k = "h_conversation_id r"
  let ?F = "first_seen (map h_conversation_id rows)"
  from snoc.prems have nf: "newest_first rows"
    and le: "\<forall>x\<in>set rows. h_created_at r \<le> h_created_at x"
    by (auto simp: newest_first_def sorted_wrt_append)
  have old: "map cv_created_at (map (conversation_of (rows @ [r])) ?F) =
               map cv_created_at (group_rows rows)"
    unfolding group_rows_eq map_map
    by (intro map_cong refl) (simp add: set_first_seen created_at_snoc_old)
  have ih: "sorted_wrt (\<lambda>a b. b \<le> a) (map cv_created_at (group_rows rows))"
    by (rule snoc.IH[OF nf])
  show ?case
  proof (cases "?k \<in> h_conversation_id ` set rows")
    case True
    then have "map cv_created_at (group_rows (rows @ [r])) = map cv_created_at (group_rows rows)"
      using old by (simp add: group_rows_eq[of "rows @ [r]"] first_seen_snoc)
    then show ?thesis using ih by simp
  next
    case False
    then have e: "map cv_created_at (group_rows (rows @ [r])) =
                    map cv_created_at (group_rows rows) @ [h_created_at r]"
      using old
      by (simp add: group_rows_eq[of "rows @ [r]"] first_seen_snoc conversation_of_snoc_same_new)
    have "\<forall>t\<in>set (map cv_created_at (group_rows rows)). h_created_at r \<le> t"
    proof
      fix t assume "t \<in> set (map cv_created_at (group_rows rows))"
      then obtain k where k: "k \<in> h_conversation_id ` set rows"
        and t: "t = h_created_at (hd (rows_of rows k))"
        by (auto simp: group_rows_eq set_first_seen conversation_of_def)
      show "h_created_at r \<le> t"
        unfolding t using le hd_rows_of_in_rows[OF k] by blast
    qed
    then show ?thesis
      unfolding e using ih by (simp add: sorted_wrt_append)
  qed
qed

lemma conversation_messages_newest_first:
  assumes "newest_first rows"
  shows "sorted_wrt (\<lambda>a b. hm_timestamp b \<le> hm_timestamp a) (cv_messages (conversation_of rows k))"
proof -
  have "sorted_wrt (\<lambda>a b. h_created_at b \<le> h_created_at a) (rows_of rows k)"
    using assms unfolding newest_first_def rows_of_def by (rule sorted_wrt_filter)
  then show ?thesis
    by (simp add: conversation_of_def sorted_wrt_map message_of_row_def)
qed

lemma fetch_history_owner:
  "set (fetch_history chat_history user_id limit offset) \<subseteq>
     {r \<in> set chat_history. h_user_id r = user_id}"
proof -
  let ?sorted = "sort_key (\<lambda>r. - h_created_at r) (filter (\<lambda>r. h_user_id r = user_id) chat_history)"
  have "set (sql_limit limit offset ?sorted) \<subseteq> set ?sorted"
    unfolding sql_limit_def Let_def
    using set_take_subset[of "nat limit" "drop (nat offset) ?sorted"]
      set_drop_subset[of "nat offset" ?sorted]
    by auto
  then show ?thesis
    by (auto simp: fetch_history_def)
qed

lemma fetch_history_length:
  "0 \<le> limit \<Longrightarrow> int (length (fetch_history chat_history user_id limit offset)) \<le> limit"
  by (simp add: fetch_history_def sql_limit_def Let_def)

lemma sql_limit_window:
  "\<exists>skipped rest.
     xs = skipped @ sql_limit limit offset xs @ rest \<and>
     length skipped = min (nat offset) (length xs) \<and>
     (rest \<noteq> [] \<longrightarrow> int (length (sql_limit limit offset xs)) = limit)"
proof (cases "limit < 0")
  case True
  show ?thesis
    by (rule exI[of _ "take (nat offset) xs"], rule exI[of _ "[]"])
       (simp add: sql_limit_def Let_def True min_def)
next
  case False
  let ?tail = "drop (nat offset) xs"
  have "take (nat limit) ?tail @ drop (nat limit) ?tail = ?tail"
    by (rule append_take_drop_id)
  then have a: "xs = take (nat offset) xs @ take (nat limit) ?tail @ drop (nat limit) ?tail"
    by (simp only: append_take_drop_id)
  have b: "drop (nat limit) ?tail \<noteq> [] \<longrightarrow> int (length (take (nat limit) ?tail)) = limit"
    using False by (auto simp: min_def)
  show ?thesis
    apply (rule exI[of _ "take (nat offset) xs"])
    apply (rule exI[of _ "drop (nat limit) ?tail"])
    unfolding sql_limit_def Let_def
    using a b False by (simp only: if_False length_take min.commute conj_commute simp_thms)
qed

lemma fetch_history_window:
  "\<exists>skipped rest.
     sorted_wrt (\<lambda>a b. h_created_at b \<le> h_created_at a)
       (skipped @ fetch_history chat_history user_id limit offset @ rest) \<and>
     set (skipped @ fetch_history chat_history user_id limit offset @ rest) =
       {r \<in> set chat_history. h_user_id r = user_id} \<and>
     length (skipped @ fetch_history chat_history user_id limit offset @ rest) =
       length (filter (\<lambda>r. h_user_id r = user_id) chat_history) \<and>
     length skipped = min (nat offset) (length (filter (\<lambda>r. h_user_id r = user_id) chat_history)) \<and>
     (rest \<noteq> [] \<longrightarrow> int (length (fetch_history chat_history user_id limit offset)) = limit)"
proof -
  let ?owned = "filter (\<lambda>r. h_user_id r = user_id) chat_history"
  let ?sorted = "sort_key (\<lambda>r. - h_created_at r) ?owned"
  obtain skipped rest where
    w: "?sorted = skipped @ sql_limit limit offset ?sorted @ rest"
    and k: "length skipped = min (nat offset) (length ?sorted)"
    and r: "rest \<noteq> [] \<longrightarrow> int (length (sql_limit limit offset ?sorted)) = limit"
    using sql_limit_window[of ?sorted limit offset] by blast
  have f: "fetch_history chat_history user_id limit offset = sql_limit limit offset ?sorted"
    by (simp add: fetch_history_def)
  have "sorted (map (\<lambda>r. - h_created_at r) ?sorted)"
    by (rule sorted_sort_key)
  then have s: "sorted_wrt (\<lambda>a b. h_created_at b \<le> h_created_at a) ?sorted"
    by (simp add: sorted_map)
  have e: "set ?sorted = {r \<in> set chat_history. h_user_id r = user_id}"
    by auto
  have l: "length ?sorted = length ?owned"
    by simp
  show ?thesis
    apply (rule exI[of _ skipped])
    apply (rule exI[of _ rest])
    unfolding f
    using s e l k r unfolding w[symmetric] by simp
qed

lemma group_rows_conversation_ids:
  "map cv_conversation_id (group_rows rows) = first_seen (map h_conversation_id rows)"
  unfolding group_rows_eq map_map by (simp add: conversation_of_def comp_def)

text \<open>
  Claim C8, as the code has it. For every owner and stored history, and a limit and an
  offset that SQLite can bind, the listing fetches rows of the owner, newest first and
  (for a limit \<open>\<ge> 0\<close>) at most \<open>limit\<close> of them: the owner's rows, newest first, are
  the \<open>offset\<close> newest, which are skipped, then the fetched rows, then the rest, which
  is empty unless the limit was reached. The listing returns exactly the conversations
  that have a fetched row, each once; the conversations are ordered newest first by
  \<open>created_at\<close>, which is the timestamp of the conversation's latest fetched turn; within
  each conversation the turns are its fetched rows in the fetched order, that is newest
  first: chronologically descending, not ascending. For a limit or an offset outside the
  signed 64-bit range the listing is empty.
\<close>

theorem get_history_order:
  assumes "conversations = ChatService_get_history chat_history user_id limit offset"
    and "rows = fetch_history chat_history user_id limit offset"
  shows "(sqlite_integer limit \<and> sqlite_integer offset \<longrightarrow>
            set rows \<subseteq> {r \<in> set chat_history. h_user_id r = user_id} \<and>
            sorted_wrt (\<lambda>a b. h_created_at b \<le> h_created_at a) rows \<and>
            (0 \<le> limit \<longrightarrow> int (length rows) \<le> limit) \<and>
            (\<exists>skipped rest.
               sorted_wrt (\<lambda>a b. h_created_at b \<le> h_created_at a) (skipped @ rows @ rest) \<and>
               set (skipped @ rows @ rest) = {r \<in> set chat_history. h_user_id r = user_id} \<and>
               length (skipped @ rows @ rest) =
                 length (filter (\<lambda>r. h_user_id r = user_id) chat_history) \<and>
               length skipped =
                 min (nat offset) (length (filter (\<lambda>r. h_user_id r = user_id) chat_history)) \<and>
               (rest \<noteq> [] \<longrightarrow> int (length rows) = limit)) \<and>
            set (map cv_conversation_id conversations) = h_conversation_id ` set rows \<and>
            distinct (map cv_conversation_id conversations) \<and>
            sorted_wrt (\<lambda>a b. cv_created_at b \<le> cv_created_at a) conversations \<and>
            (\<forall>c\<in>set conversations.
               cv_messages c = map message_of_row (rows_of rows (cv_conversation_id c)) \<and>
               cv_messages c \<noteq> [] \<and>
               cv_created_at c = hm_timestamp (hd (cv_messages c)) \<and>
               sorted_wrt (\<lambda>a b. hm_timestamp b \<le> hm_timestamp a) (cv_messages c))) \<and>
         (\<not> (sqlite_integer limit \<and> sqlite_integer offset) \<longrightarrow> conversations = [])"
proof -
  have nf: "newest_first rows"
    unfolding assms(2) by (rule newest_first_fetch)
  have q: "\<not> (sqlite_integer limit \<and> sqlite_integer offset) \<longrightarrow> conversations = []"
    using assms(1) by (simp add: ChatService_get_history_def)
  have p: "sqlite_integer limit \<and> sqlite_integer offset \<longrightarrow>
            set rows \<subseteq> {r \<in> set chat_history. h_user_id r = user_id} \<and>
            sorted_wrt (\<lambda>a b. h_created_at b \<le> h_created_at a) rows \<and>
            (0 \<le> limit \<longrightarrow> int (length rows) \<le> limit) \<and>
            (\<exists>skipped rest.
               sorted_wrt (\<lambda>a b. h_created_at b \<le> h_created_at a) (skipped @ rows @ rest) \<and>
               set (skipped @ rows @ rest) = {r \<in> set chat_history. h_user_id r = user_id} \<and>
               length (skipped @ rows @ rest) =
                 length (filter (\<lambda>r. h_user_id r = user_id) chat_history) \<and>
               length skipped =
                 min (nat offset) (length (filter (\<lambda>r. h_user_id r = user_id) chat_history)) \<and>
               (rest \<noteq> [] \<longrightarrow> int (length rows) = limit)) \<and>
            set (map cv_conversation_id conversations) = h_conversation_id ` set rows \<and>
            distinct (map cv_conversation_id conversations) \<and>
            sorted_wrt (\<lambda>a b. cv_created_at b \<le> cv_created_at a) conversations \<and>
            (\<forall>c\<in>set conversations.
               cv_messages c = map message_of_row (rows_of rows (cv_conversation_id c)) \<and>
               cv_messages c \<noteq> [] \<and>
               cv_created_at c = hm_timestamp (hd (cv_messages c)) \<and>
               sorted_wrt (\<lambda>a b. hm_timestamp b \<le> hm_timestamp a) (cv_messages c))"
  proof
    assume range: "sqlite_integer limit \<and> sqlite_integer offset"
    have c: "conversations = group_rows rows"
      using assms range by (simp add: ChatService_get_history_def)
    have r1: "set rows \<subseteq> {r \<in> set chat_history. h_user_id r = user_id}"
      unfolding assms(2) by (rule fetch_history_owner)
    have r2: "sorted_wrt (\<lambda>a b. h_created_at b \<le> h_created_at a) rows"
      using nf by (simp add: newest_first_def)
    have r3: "0 \<le> limit \<longrightarrow> int (length rows) \<le> limit"
      unfolding assms(2) by (simp add: fetch_history_length)
    have r4: "\<exists>skipped rest.
               sorted_wrt (\<lambda>a b. h_created_at b \<le> h_created_at a) (skipped @ rows @ rest) \<and>
               set (skipped @ rows @ rest) = {r \<in> set chat_history. h_user_id r = user_id} \<and>
               length (skipped @ rows @ rest) =
                 length (filter (\<lambda>r. h_user_id r = user_id) chat_history) \<and>
               length skipped =
                 min (nat offset) (length (filter (\<lambda>r. h_user_id r = user_id) chat_history)) \<and>
               (rest \<noteq> [] \<longrightarrow> int (length rows) = limit)"
      unfolding assms(2) by (rule fetch_history_window)
    have ids: "map cv_conversation_id conversations = first_seen (map h_conversation_id rows)"
      unfolding c by (rule group_rows_conversation_ids)
    have p0: "set (map cv_conversation_id conversations) = h_conversation_id ` set rows"
      unfolding ids by (simp add: set_first_seen)
    have p1: "sorted_wrt (\<lambda>a b. cv_created_at b \<le> cv_created_at a) conversations"
      using conversations_newest_first[OF nf] unfolding c by (simp add: sorted_wrt_map)
    have p2: "distinct (map cv_conversation_id conversations)"
      unfolding ids by (rule distinct_first_seen)
    have p3: "\<forall>c\<in>set conversations.
              cv_messages c = map message_of_row (rows_of rows (cv_conversation_id c)) \<and>
              cv_messages c \<noteq> [] \<and>
              cv_created_at c = hm_timestamp (hd (cv_messages c)) \<and>
              sorted_wrt (\<lambda>a b. hm_timestamp b \<le> hm_timestamp a) (cv_messages c)"
    proof
      fix x assume "x \<in> set conversations"
      then obtain k where k: "k \<in> h_conversation_id ` set rows" and x: "x = conversation_of rows k"
        unfolding c group_rows_eq by (auto simp: set_first_seen)
      have ne: "rows_of rows k \<noteq> []" by (rule rows_of_nonempty[OF k])
      have a: "cv_messages x = map message_of_row (rows_of rows (cv_conversation_id x))"
        unfolding x by (simp add: conversation_of_def)
      have b: "cv_messages x \<noteq> []"
        unfolding x using ne by (simp add: conversation_of_def)
      have d: "cv_created_at x = hm_timestamp (hd (cv_messages x))"
        unfolding x using ne by (simp add: conversation_of_def hd_map message_of_row_def)
      have e: "sorted_wrt (\<lambda>a b. hm_timestamp b \<le> hm_timestamp a) (cv_messages x)"
        unfolding x by (rule conversation_messages_newest_first[OF nf])
      show "cv_messages x = map message_of_row (rows_of rows (cv_conversation_id x)) \<and>
              cv_messages x \<noteq> [] \<and>
              cv_created_at x = hm_timestamp (hd (cv_messages x)) \<and>
              sorted_wrt (\<lambda>a b. hm_timestamp b \<le> hm_timestamp a) (cv_messages x)"
        using a b d e by blast
    qed
    show "set rows \<subseteq> {r \<in> set chat_history. h_user_id r = user_id} \<and>
            sorted_wrt (\<lambda>a b. h_created_at b \<le> h_created_at a) rows \<and>
            (0 \<le> limit \<longrightarrow> int (length rows) \<le> limit) \<and>
            (\<exists>skipped rest.
               sorted_wrt (\<lambda>a b. h_created_at b \<le> h_created_at a) (skipped @ rows @ rest) \<and>
               set (skipped @ rows @ rest) = {r \<in> set chat_history. h_user_id r = user_id} \<and>
               length (skipped @ rows @ rest) =
                 length (filter (\<lambda>r. h_user_id r = user_id) chat_history) \<and>
               length skipped =
                 min (nat offset) (length (filter (\<lambda>r. h_user_id r = user_id) chat_history)) \<and>
               (rest \<noteq> [] \<longrightarrow> int (length rows) = limit)) \<and>
            set (map cv_conversation_id conversations) = h_conversation_id ` set rows \<and>
            distinct (map cv_conversation_id conversations) \<and>
            sorted_wrt (\<lambda>a b. cv_created_at b \<le> cv_created_at a) conversations \<and>
            (\<forall>c\<in>set conversations.
               cv_messages c = map message_of_row (rows_of rows (cv_conversation_id c)) \<and>
               cv_messages c \<noteq> [] \<and>
               cv_created_at c = hm_timestamp (hd (cv_messages c)) \<and>
               sorted_wrt (\<lambda>a b. hm_timestamp b \<le> hm_timestamp a) (cv_messages c))"
      by (rule conjI r1 r2 r3 r4 p0 p2 p1 p3)+
  qed
  show ?thesis
    by (rule conjI p q)+
qed

lemma example_history_listing:
  "ChatService_get_history example_history ''u1'' 50 0 =
     [\<lparr>cv_conversation_id = ''k1'',
       cv_messages = [\<lparr>hm_role = ''assistant'', hm_content = ''hello'', hm_timestamp = 2\<rparr>,
                      \<lparr>hm_role = ''user'', hm_content = ''hi'', hm_timestamp = 1\<rparr>],
       cv_created_at = 2\<rparr>]"
  by (simp add: ChatService_get_history_def sqlite_integer_def fetch_history_def sql_limit_def
        example_history_def group_rows_def add_row_def message_of_row_def Let_def)

text \<open>
  The listing with a limit that SQLite cannot bind is empty, although the owner has turns.
\<close>

lemma example_history_unbound_limit:
  "ChatService_get_history example_history ''u1'' (2 ^ 63) 0 = []"
  by (simp add: ChatService_get_history_def sqlite_integer_def)

text \<open>
  C8, counterexample: a conversation with a user turn at time 1 and the assistant's turn
  at time 2 is listed with the assistant's turn first.
\<close>

theorem get_history_order_counterexample:
  "ChatService_get_history example_history ''u1'' 50 0 =
     [\<lparr>cv_conversation_id = ''k1'',
       cv_messages = [\<lparr>hm_role = ''assistant'', hm_content = ''hello'', hm_timestamp = 2\<rparr>,
                      \<lparr>hm_role = ''user'', hm_content = ''hi'', hm_timestamp = 1\<rparr>],
       cv_created_at = 2\<rparr>] \<and>
   \<not> sorted (map hm_timestamp (cv_messages (hd (ChatService_get_history example_history ''u1'' 50 0))))"
  by (simp add: example_history_listing)

text \<open>
  C8, witness: the same history.
\<close>

theorem get_history_order_witness:
  "sqlite_integer 50 \<and> sqlite_integer 0 \<and>
   set (map cv_conversation_id (ChatService_get_history example_history ''u1'' 50 0)) =
     h_conversation_id ` set (fetch_history example_history ''u1'' 50 0) \<and>
   distinct (map cv_conversation_id (ChatService_get_history example_history ''u1'' 50 0)) \<and>
   sorted_wrt (\<lambda>a b. cv_created_at b \<le> cv_created_at a)
     (ChatService_get_history example_history ''u1'' 50 0) \<and>
   map cv_conversation_id (ChatService_get_history example_history ''u1'' 50 0) = [''k1''] \<and>
   map hm_timestamp (cv_messages (hd (ChatService_get_history example_history ''u1'' 50 0))) = [2, 1]"
proof -
  have i: "sqlite_integer 50 \<and> sqlite_integer 0"
    by (simp add: sqlite_integer_def)
  note t = get_history_order[OF refl refl, where chat_history = example_history
      and user_id = "''u1''" and limit = 50 and offset = 0, THEN conjunct1, THEN mp, OF i]
  have a: "set (map cv_conversation_id (ChatService_get_history example_history ''u1'' 50 0)) =
     h_conversation_id ` set (fetch_history example_history ''u1'' 50 0)"
    using t by blast
  have b: "distinct (map cv_conversation_id (ChatService_get_history example_history ''u1'' 50 0))"
    using t by blast
  have c: "sorted_wrt (\<lambda>a b. cv_created_at b \<le> cv_created_at a)
     (ChatService_get_history example_history ''u1'' 50 0)"
    using t by blast
  have d: "map cv_conversation_id (ChatService_get_history example_history ''u1'' 50 0) = [''k1'']"
    by (simp add: example_history_listing)
  have e: "map hm_timestamp (cv_messages (hd (ChatService_get_history example_history ''u1'' 50 0))) = [2, 1]"
    by (simp add: example_history_listing)
  show ?thesis
    using i a b c d e by blast
qed

end
